theory Spec2Isabelle
  imports Main "HOL-Library.Char_ord" "HOL-Library.List_Lexorder"
begin

section \<open>Values, exceptions and the host runtime\<close>

text \<open>
  The library \<^verbatim>\<open>anycache\<close> (\<^verbatim>\<open>src/anycache/main.py\<close>,
  \<^verbatim>\<open>src/anycache/serializers.py\<close>) memoises function results in files.
  Byte strings and text are both \<open>string\<close> (a list of 8-bit characters); text is
  read as its UTF-8 bytes. A path is the list of its segments.
\<close>

type_synonym bytes = string
type_synonym path = "string list"

text \<open>Results of wrapped callables: the fragment of Python objects the model needs.
  \<open>PNone\<close> is Python's \<^verbatim>\<open>None\<close>.\<close>

datatype pyval = PNone | PBool bool | PInt int | PStr string | PList "pyval list"

text \<open>Exceptions are values: \<open>Inl e\<close> is "raised \<open>e\<close>".\<close>

datatype exn =
    TypeError
  | FileNotFoundError
  | OSError
  | BinasciiError
  | UnpicklingError
  | PicklingError
  | UserError string

text \<open>
  The functions of the Python runtime that the library calls and that are not
  part of the repository are parameters: \<open>str_of\<close> is the built-in \<^verbatim>\<open>str\<close> on call
  arguments (of any type \<open>'a\<close>), \<open>sha256_hex\<close> is
  \<^verbatim>\<open>hashlib.sha256(s.encode("utf-8")).hexdigest()\<close>, and \<open>pickle_dumps\<close>,
  \<open>pickle_loads\<close> are \<^verbatim>\<open>pickle.dumps\<close> and \<^verbatim>\<open>pickle.loads\<close>.
\<close>

record 'a runtime =
  str_of :: "'a \<Rightarrow> string"
  sha256_hex :: "string \<Rightarrow> string"
  pickle_dumps :: "pyval \<Rightarrow> exn + bytes"
  pickle_loads :: "bytes \<Rightarrow> exn + pyval"

text \<open>\<^verbatim>\<open>class Serializer(Protocol)\<close>: \<^verbatim>\<open>dumps\<close> and \<^verbatim>\<open>loads\<close>, either of which may raise.\<close>

record serializer =
  dumps :: "pyval \<Rightarrow> exn + bytes"
  loads :: "bytes \<Rightarrow> exn + pyval"

text \<open>The fields \<^verbatim>\<open>CacheWrapper.__init__\<close> sets.\<close>

record cache_wrapper =
  is_method :: bool
  cache_dir :: path
  the_serializer :: serializer

section \<open>Key derivation\<close>

text \<open>\<^verbatim>\<open>sep.join(xs)\<close>.\<close>

fun join :: "string \<Rightarrow> string list \<Rightarrow> string" where
  "join sep [] = []"
| "join sep [x] = x"
| "join sep (x # y # ys) = x @ sep @ join sep (y # ys)"

text \<open>
  \<^verbatim>\<open>sorted(kwargs.items())\<close>: the keyword arguments are an association list in call
  order; a \<^verbatim>\<open>dict\<close> has distinct keys, so the tuples are ordered by their keys alone.
\<close>

definition sorted_items :: "(string \<times> 'a) list \<Rightarrow> (string \<times> 'a) list" where
  "sorted_items kwargs = sort_key fst kwargs"

text \<open>
  \<^verbatim>\<open>
  def make_key(self, func_name, args, kwargs) -> str:
      args = args[1:] if self.is_method else args
      key_parts = [
          func_name,
          "_".join(str(arg) for arg in args),
          "_".join(f"{k}={v}" for k, v in sorted(kwargs.items())),
      ]
      string = ":".join(kp for kp in key_parts if kp)
      return hashlib.sha256(string.encode("utf-8")).hexdigest()
  \<close>
\<close>

definition key_string :: "'a runtime \<Rightarrow> cache_wrapper \<Rightarrow> string \<Rightarrow> 'a list \<Rightarrow> (string \<times> 'a) list \<Rightarrow> string" where
  "key_string rt self func_name args kwargs =
     (let args' = (if is_method self then drop 1 args else args);
          key_parts =
            [func_name,
             join ''_'' (map (str_of rt) args'),
             join ''_'' (map (\<lambda>(k, v). k @ ''='' @ str_of rt v) (sorted_items kwargs))]
      in join '':'' (filter (\<lambda>kp. kp \<noteq> []) key_parts))"

definition make_key :: "'a runtime \<Rightarrow> cache_wrapper \<Rightarrow> string \<Rightarrow> 'a list \<Rightarrow> (string \<times> 'a) list \<Rightarrow> string" where
  "make_key rt self func_name args kwargs = sha256_hex rt (key_string rt self func_name args kwargs)"

subsection \<open>The key as the specification words it\<close>

text \<open>
  The reference definition follows the specification: three components, the function
  name, the positional arguments rendered and underscore-joined (without the receiver of
  a bound method), the keyword arguments as \<open>key=value\<close> in ascending key order,
  underscore-joined; the non-empty components are colon-joined and hashed.
\<close>

fun underscored :: "string list \<Rightarrow> string" where
  "underscored [] = []"
| "underscored (x # xs) = (if xs = [] then x else x @ ''_'' @ underscored xs)"

fun colon_joined :: "string list \<Rightarrow> string" where
  "colon_joined [] = []"
| "colon_joined (c # cs) =
     (if c = [] then colon_joined cs
      else if colon_joined cs = [] then c
      else c @ '':'' @ colon_joined cs)"

definition spec_positional :: "'a runtime \<Rightarrow> bool \<Rightarrow> 'a list \<Rightarrow> string" where
  "spec_positional rt bound args =
     underscored (map (str_of rt) (case args of [] \<Rightarrow> [] | receiver # rest \<Rightarrow> if bound then rest else args))"

definition spec_keyword :: "'a runtime \<Rightarrow> (string \<times> 'a) list \<Rightarrow> string" where
  "spec_keyword rt kwargs =
     underscored (map (\<lambda>k. k @ ''='' @ str_of rt (the (map_of kwargs k)))
                      (sorted_list_of_set (fst ` set kwargs)))"

definition spec_key :: "'a runtime \<Rightarrow> bool \<Rightarrow> string \<Rightarrow> 'a list \<Rightarrow> (string \<times> 'a) list \<Rightarrow> string" where
  "spec_key rt bound func_name args kwargs =
     sha256_hex rt
       (colon_joined [func_name, spec_positional rt bound args, spec_keyword rt kwargs])"


section \<open>The filesystem and the wrapped callables\<close>

text \<open>
  The state a call runs in: the files (by path), the fault, if any, that the operating
  system reports for a path, the state \<open>user\<close> that the wrapped callable itself reads
  and writes, and \<open>calls\<close>, a ghost counter of how often the library has invoked the
  wrapped callable. The wrapped callable does not touch the cache files. Logging has no
  effect on results and is left out. A path has at most one fault at a time.
\<close>

datatype io_fault =
    OpenFault       \<comment> \<open>opening the path for writing raises\<close>
  | WriteFault nat  \<comment> \<open>\<^verbatim>\<open>f.write\<close> raises after that many bytes\<close>
  | ReadFault       \<comment> \<open>opening or reading the path raises\<close>
  | MkdirFault      \<comment> \<open>the directory cannot be created\<close>
  | ReadOnly        \<comment> \<open>read-only file system: opening the path for writing and removing it raise\<close>

record 's world =
  files :: "path \<rightharpoonup> bytes"
  fault :: "path \<Rightarrow> io_fault option"
  user :: 's
  calls :: nat

text \<open>
  A plain or coroutine function: \<^verbatim>\<open>func.__name__\<close> and the effect of a call. A call
  may mutate its arguments in place (\<^verbatim>\<open>xs.sort()\<close>); \<open>after_call\<close> gives the caller's
  argument objects as they are once the call has returned, which is what \<^verbatim>\<open>str\<close> renders
  from then on.
\<close>

record ('a, 's) pyfunc =
  name :: string
  call :: "'a list \<Rightarrow> (string \<times> 'a) list \<Rightarrow> 's \<Rightarrow> (exn + pyval) \<times> 's"
  after_call :: "'a list \<Rightarrow> (string \<times> 'a) list \<Rightarrow> 's \<Rightarrow> 'a list \<times> (string \<times> 'a) list"

text \<open>
  A generator function: calling it binds the arguments (which may raise) and creates
  a generator in state \<open>start\<close> without running it; \<open>resume\<close> runs it to its next \<^verbatim>\<open>yield\<close> (\<open>Some (item, g)\<close>), to its end
  (\<open>None\<close>) or to an exception.
\<close>

record ('a, 's, 'g) pygen =
  gen_name :: string
  start :: "'a list \<Rightarrow> (string \<times> 'a) list \<Rightarrow> exn + 'g"
  resume :: "'g \<Rightarrow> 's \<Rightarrow> (exn + (pyval \<times> 'g) option) \<times> 's"

subsection \<open>File operations of \<^verbatim>\<open>pathlib\<close>\<close>

definition path_exists :: "'s world \<Rightarrow> path \<Rightarrow> bool" where
  "path_exists w p = (files w p \<noteq> None)"

text \<open>\<^verbatim>\<open>with p.open("rb") as f: f.read()\<close>\<close>

definition read_bytes :: "'s world \<Rightarrow> path \<Rightarrow> exn + bytes" where
  "read_bytes w p =
     (if fault w p = Some ReadFault then Inl OSError
      else case files w p of None \<Rightarrow> Inl FileNotFoundError | Some b \<Rightarrow> Inr b)"

text \<open>\<^verbatim>\<open>p.open(mode="wb")\<close> creates or truncates the file.\<close>

definition open_wb :: "'s world \<Rightarrow> path \<Rightarrow> (exn + unit) \<times> 's world" where
  "open_wb w p =
     (if fault w p = Some OpenFault \<or> fault w p = Some ReadOnly then (Inl OSError, w)
      else (Inr (), w\<lparr>files := (files w)(p \<mapsto> [])\<rparr>))"

text \<open>\<^verbatim>\<open>f.write(blob)\<close> on the file just opened.\<close>

definition write_bytes :: "'s world \<Rightarrow> path \<Rightarrow> bytes \<Rightarrow> (exn + unit) \<times> 's world" where
  "write_bytes w p blob =
     (case fault w p of
        Some (WriteFault n) \<Rightarrow> (Inl OSError, w\<lparr>files := (files w)(p \<mapsto> take n blob)\<rparr>)
      | _ \<Rightarrow> (Inr (), w\<lparr>files := (files w)(p \<mapsto> blob)\<rparr>))"

text \<open>\<^verbatim>\<open>p.unlink()\<close> raises \<^verbatim>\<open>FileNotFoundError\<close> when there is no such file, and
  \<^verbatim>\<open>OSError\<close> when the file exists and cannot be removed.\<close>

definition unlink :: "'s world \<Rightarrow> path \<Rightarrow> (exn + unit) \<times> 's world" where
  "unlink w p =
     (case files w p of
        None \<Rightarrow> (Inl FileNotFoundError, w)
      | Some b \<Rightarrow>
          if fault w p = Some ReadOnly then (Inl OSError, w)
          else (Inr (), w\<lparr>files := (files w)(p := None)\<rparr>))"

text \<open>\<^verbatim>\<open>p.mkdir(parents=True, exist_ok=True)\<close>; directories are not tracked.\<close>

definition mkdir :: "'s world \<Rightarrow> path \<Rightarrow> (exn + unit) \<times> 's world" where
  "mkdir w p = (if fault w p = Some MkdirFault then (Inl OSError, w) else (Inr (), w))"

section \<open>The cache controller\<close>

definition cache_file :: "'a runtime \<Rightarrow> cache_wrapper \<Rightarrow> string \<Rightarrow> 'a list \<Rightarrow> (string \<times> 'a) list \<Rightarrow> path" where
  "cache_file rt self func_name args kwargs = cache_dir self @ [make_key rt self func_name args kwargs]"

text \<open>
  \<^verbatim>\<open>
  def read(self, func, args, kwargs) -> Any:
      key = self.make_key(func.__name__, args, kwargs)
      if not (cache_file := self.cache_dir / key).exists():
          return None
      try:
          with cache_file.open("rb") as f:
              content = self.serializer.loads(f.read())
      except Exception as exc:
          cache_file.unlink()
          return None
      return content
  \<close>
  An exception raised by the handler's \<^verbatim>\<open>unlink\<close> leaves \<^verbatim>\<open>read\<close>.
\<close>

definition read :: "'a runtime \<Rightarrow> cache_wrapper \<Rightarrow> string \<Rightarrow> 'a list \<Rightarrow> (string \<times> 'a) list \<Rightarrow>
    's world \<Rightarrow> (exn + pyval) \<times> 's world" where
  "read rt self func_name args kwargs w =
     (let p = cache_file rt self func_name args kwargs in
      if \<not> path_exists w p then (Inr PNone, w)
      else
        case (case read_bytes w p of
                Inl exc \<Rightarrow> Inl exc
              | Inr blob \<Rightarrow> loads (the_serializer self) blob) of
          Inl exc \<Rightarrow>
            (case unlink w p of
               (Inl exc', w') \<Rightarrow> (Inl exc', w')
             | (Inr u, w') \<Rightarrow> (Inr PNone, w'))
        | Inr content \<Rightarrow> (Inr content, w))"

text \<open>
  \<^verbatim>\<open>
  def write(self, content, func, args, kwargs) -> None:
      key = self.make_key(func.__name__, args, kwargs)
      try:
          with (cache_file := self.cache_dir / key).open(mode="wb") as f:
              f.write(self.serializer.dumps(content))
      except Exception as exc:
          cache_file.unlink()
  \<close>
  The file is opened before \<^verbatim>\<open>dumps\<close> runs. An exception raised by the handler's
  \<^verbatim>\<open>unlink\<close> leaves \<^verbatim>\<open>write\<close>.
\<close>

definition "write" :: "'a runtime \<Rightarrow> cache_wrapper \<Rightarrow> pyval \<Rightarrow> string \<Rightarrow> 'a list \<Rightarrow> (string \<times> 'a) list \<Rightarrow>
    's world \<Rightarrow> (exn + unit) \<times> 's world" where
  "write rt self content func_name args kwargs w =
     (let p = cache_file rt self func_name args kwargs in
      case open_wb w p of
        (Inl exc, w1) \<Rightarrow> unlink w1 p
      | (Inr f, w1) \<Rightarrow>
          (case dumps (the_serializer self) content of
             Inl exc \<Rightarrow> unlink w1 p
           | Inr blob \<Rightarrow>
               (case write_bytes w1 p blob of
                  (Inl exc, w2) \<Rightarrow> unlink w2 p
                | (Inr u, w2) \<Rightarrow> (Inr (), w2))))"

section \<open>The four wrappers\<close>

text \<open>Invoking the wrapped function: its effect on \<open>user\<close>, counted in \<open>calls\<close>.
  \<^verbatim>\<open>read\<close> derives the key from the arguments before the call, \<^verbatim>\<open>write\<close> from the same
  objects after it.\<close>

definition invoke :: "('a, 's) pyfunc \<Rightarrow> 'a list \<Rightarrow> (string \<times> 'a) list \<Rightarrow> 's world \<Rightarrow> (exn + pyval) \<times> 's world" where
  "invoke func args kwargs w =
     (case call func args kwargs (user w) of
        (r, u') \<Rightarrow> (r, w\<lparr>user := u', calls := calls w + 1\<rparr>))"

text \<open>
  \<^verbatim>\<open>
  def sync_wrapper(self, func, *args, **kwargs):
      if (hit := self.read(func, args, kwargs)) is not None:
          return hit
      content = func(*args, **kwargs)
      self.write(content, func, args, kwargs)
      return content
  \<close>
\<close>

definition sync_wrapper :: "'a runtime \<Rightarrow> cache_wrapper \<Rightarrow> ('a, 's) pyfunc \<Rightarrow> 'a list \<Rightarrow> (string \<times> 'a) list \<Rightarrow>
    's world \<Rightarrow> (exn + pyval) \<times> 's world" where
  "sync_wrapper rt self func args kwargs w =
     (case read rt self (name func) args kwargs w of
        (Inl exc, w1) \<Rightarrow> (Inl exc, w1)
      | (Inr hit, w1) \<Rightarrow>
          if hit \<noteq> PNone then (Inr hit, w1)
          else
            (case invoke func args kwargs w1 of
               (Inl exc, w2) \<Rightarrow> (Inl exc, w2)
             | (Inr content, w2) \<Rightarrow>
                 (case after_call func args kwargs (user w1) of
                    (args', kwargs') \<Rightarrow>
                      (case write rt self content (name func) args' kwargs' w2 of
                         (Inl exc, w3) \<Rightarrow> (Inl exc, w3)
                       | (Inr u, w3) \<Rightarrow> (Inr content, w3)))))"

text \<open>
  \<^verbatim>\<open>async_wrapper\<close> has the same body with \<^verbatim>\<open>content = await func(*args, **kwargs)\<close>:
  awaiting runs the coroutine to its result or its exception (a cancellation is an
  exception raised inside it), which is what \<open>call\<close> gives.
\<close>

definition async_wrapper :: "'a runtime \<Rightarrow> cache_wrapper \<Rightarrow> ('a, 's) pyfunc \<Rightarrow> 'a list \<Rightarrow> (string \<times> 'a) list \<Rightarrow>
    's world \<Rightarrow> (exn + pyval) \<times> 's world" where
  "async_wrapper rt self func args kwargs w =
     (case read rt self (name func) args kwargs w of
        (Inl exc, w1) \<Rightarrow> (Inl exc, w1)
      | (Inr hit, w1) \<Rightarrow>
          if hit \<noteq> PNone then (Inr hit, w1)
          else
            (case invoke func args kwargs w1 of
               (Inl exc, w2) \<Rightarrow> (Inl exc, w2)
             | (Inr content, w2) \<Rightarrow>
                 (case after_call func args kwargs (user w1) of
                    (args', kwargs') \<Rightarrow>
                      (case write rt self content (name func) args' kwargs' w2 of
                         (Inl exc, w3) \<Rightarrow> (Inl exc, w3)
                       | (Inr u, w3) \<Rightarrow> (Inr content, w3)))))"


subsection \<open>Generator wrappers\<close>

text \<open>
  A generator object is a state machine that runs on each \<^verbatim>\<open>next\<close>. The object a
  generator wrapper returns is \<open>Created\<close> until the first \<^verbatim>\<open>next\<close>; then it replays a hit
  (\<open>Replaying\<close> the remaining items) or forwards the source generator (\<open>Forwarding\<close> its
  state and the \<^verbatim>\<open>content\<close> accumulated so far); \<open>Closed\<close> once it has returned or raised.
  A step gives \<open>Inr (Some item)\<close> for \<^verbatim>\<open>yield item\<close>, \<open>Inr None\<close> for the end of the
  iteration, \<open>Inl e\<close> for an exception.
\<close>

datatype 'g wrapper_gen =
    Created
  | Replaying "pyval list"
  | Forwarding 'g "pyval list"
  | Closed

text \<open>\<^verbatim>\<open>iter(hit)\<close>: a list gives its items, text its characters (ASCII text is meant);
  \<^verbatim>\<open>None\<close>, booleans and integers are not iterable.\<close>

fun py_iter :: "pyval \<Rightarrow> exn + pyval list" where
  "py_iter (PList xs) = Inr xs"
| "py_iter (PStr s) = Inr (map (\<lambda>c. PStr [c]) s)"
| "py_iter v = Inl TypeError"

text \<open>
  \<^verbatim>\<open>
  def sync_gen_wrapper(self, func, *args, **kwargs):
      if (hit := self.read(func, args, kwargs)) is not None:
          yield from hit
      else:
          content = []
          for item in func(*args, **kwargs):
              content.append(item)
              yield item
          self.write(content, func, args, kwargs)
  \<close>
  \<open>sync_gen_running\<close> is a \<^verbatim>\<open>next\<close> on the started generator, \<open>sync_gen_next\<close> a
  \<^verbatim>\<open>next\<close> in any state.
\<close>

definition sync_gen_running :: "'a runtime \<Rightarrow> cache_wrapper \<Rightarrow> ('a, 's, 'g) pygen \<Rightarrow> 'a list \<Rightarrow> (string \<times> 'a) list \<Rightarrow>
    'g wrapper_gen \<Rightarrow> 's world \<Rightarrow> (exn + pyval option) \<times> 'g wrapper_gen \<times> 's world" where
  "sync_gen_running rt self func args kwargs st w =
     (case st of
        Replaying [] \<Rightarrow> (Inr None, Closed, w)
      | Replaying (item # rest) \<Rightarrow> (Inr (Some item), Replaying rest, w)
      | Forwarding g content \<Rightarrow>
          (case resume func g (user w) of
             (Inl exc, u') \<Rightarrow> (Inl exc, Closed, w\<lparr>user := u'\<rparr>)
           | (Inr (Some (item, g')), u') \<Rightarrow>
               (Inr (Some item), Forwarding g' (content @ [item]), w\<lparr>user := u'\<rparr>)
           | (Inr None, u') \<Rightarrow>
               (case write rt self (PList content) (gen_name func) args kwargs (w\<lparr>user := u'\<rparr>) of
                  (Inl exc, w') \<Rightarrow> (Inl exc, Closed, w')
                | (Inr u, w') \<Rightarrow> (Inr None, Closed, w')))
      | _ \<Rightarrow> (Inr None, Closed, w))"

definition sync_gen_next :: "'a runtime \<Rightarrow> cache_wrapper \<Rightarrow> ('a, 's, 'g) pygen \<Rightarrow> 'a list \<Rightarrow> (string \<times> 'a) list \<Rightarrow>
    'g wrapper_gen \<Rightarrow> 's world \<Rightarrow> (exn + pyval option) \<times> 'g wrapper_gen \<times> 's world" where
  "sync_gen_next rt self func args kwargs st w =
     (case st of
        Created \<Rightarrow>
          (case read rt self (gen_name func) args kwargs w of
             (Inl exc, w1) \<Rightarrow> (Inl exc, Closed, w1)
           | (Inr hit, w1) \<Rightarrow>
               if hit \<noteq> PNone then
                 (case py_iter hit of
                    Inl exc \<Rightarrow> (Inl exc, Closed, w1)
                  | Inr items \<Rightarrow> sync_gen_running rt self func args kwargs (Replaying items) w1)
               else
                 (case start func args kwargs of
                    Inl exc \<Rightarrow> (Inl exc, Closed, w1\<lparr>calls := calls w1 + 1\<rparr>)
                  | Inr g \<Rightarrow>
                      sync_gen_running rt self func args kwargs
                        (Forwarding g []) (w1\<lparr>calls := calls w1 + 1\<rparr>)))
      | _ \<Rightarrow> sync_gen_running rt self func args kwargs st w)"

text \<open>
  \<^verbatim>\<open>
  async def async_gen_wrapper(self, func, *args, **kwargs):
      if (hit := self.read(func, args, kwargs)) is not None:
          for item in hit:
              yield item
      else:
          content = []
          async for item in func(*args, **kwargs):
              content.append(item)
              yield item
          self.write(content, func, args, kwargs)
  \<close>
  A step is an awaited \<^verbatim>\<open>__anext__\<close>; \<open>resume\<close> is the awaited \<^verbatim>\<open>__anext__\<close> of the source,
  and a cancellation is an exception raised there.
\<close>

definition async_gen_running :: "'a runtime \<Rightarrow> cache_wrapper \<Rightarrow> ('a, 's, 'g) pygen \<Rightarrow> 'a list \<Rightarrow> (string \<times> 'a) list \<Rightarrow>
    'g wrapper_gen \<Rightarrow> 's world \<Rightarrow> (exn + pyval option) \<times> 'g wrapper_gen \<times> 's world" where
  "async_gen_running rt self func args kwargs st w =
     (case st of
        Replaying [] \<Rightarrow> (Inr None, Closed, w)
      | Replaying (item # rest) \<Rightarrow> (Inr (Some item), Replaying rest, w)
      | Forwarding g content \<Rightarrow>
          (case resume func g (user w) of
             (Inl exc, u') \<Rightarrow> (Inl exc, Closed, w\<lparr>user := u'\<rparr>)
           | (Inr (Some (item, g')), u') \<Rightarrow>
               (Inr (Some item), Forwarding g' (content @ [item]), w\<lparr>user := u'\<rparr>)
           | (Inr None, u') \<Rightarrow>
               (case write rt self (PList content) (gen_name func) args kwargs (w\<lparr>user := u'\<rparr>) of
                  (Inl exc, w') \<Rightarrow> (Inl exc, Closed, w')
                | (Inr u, w') \<Rightarrow> (Inr None, Closed, w')))
      | _ \<Rightarrow> (Inr None, Closed, w))"

definition async_gen_next :: "'a runtime \<Rightarrow> cache_wrapper \<Rightarrow> ('a, 's, 'g) pygen \<Rightarrow> 'a list \<Rightarrow> (string \<times> 'a) list \<Rightarrow>
    'g wrapper_gen \<Rightarrow> 's world \<Rightarrow> (exn + pyval option) \<times> 'g wrapper_gen \<times> 's world" where
  "async_gen_next rt self func args kwargs st w =
     (case st of
        Created \<Rightarrow>
          (case read rt self (gen_name func) args kwargs w of
             (Inl exc, w1) \<Rightarrow> (Inl exc, Closed, w1)
           | (Inr hit, w1) \<Rightarrow>
               if hit \<noteq> PNone then
                 (case py_iter hit of
                    Inl exc \<Rightarrow> (Inl exc, Closed, w1)
                  | Inr items \<Rightarrow> async_gen_running rt self func args kwargs (Replaying items) w1)
               else
                 (case start func args kwargs of
                    Inl exc \<Rightarrow> (Inl exc, Closed, w1\<lparr>calls := calls w1 + 1\<rparr>)
                  | Inr g \<Rightarrow>
                      async_gen_running rt self func args kwargs
                        (Forwarding g []) (w1\<lparr>calls := calls w1 + 1\<rparr>)))
      | _ \<Rightarrow> async_gen_running rt self func args kwargs st w)"

text \<open>
  A consumer that asks for at most \<open>n\<close> items and then stops asking: the items it got,
  and the generator and the world it leaves behind. It stops early at the end of the
  iteration or at an exception.
\<close>

fun take_items :: "nat \<Rightarrow> ('g wrapper_gen \<Rightarrow> 's world \<Rightarrow> (exn + pyval option) \<times> 'g wrapper_gen \<times> 's world) \<Rightarrow>
    'g wrapper_gen \<Rightarrow> 's world \<Rightarrow> pyval list \<times> 'g wrapper_gen \<times> 's world" where
  "take_items 0 nxt st w = ([], st, w)"
| "take_items (Suc n) nxt st w =
     (case nxt st w of
        (Inr (Some item), st', w') \<Rightarrow>
          (case take_items n nxt st' w' of (items, st'', w'') \<Rightarrow> (item # items, st'', w''))
      | (r, st', w') \<Rightarrow> ([], st', w'))"


section \<open>The default serializer\<close>

subsection \<open>\<^verbatim>\<open>base64.encodebytes\<close> and \<^verbatim>\<open>base64.decodebytes\<close>\<close>

text \<open>
  The standard library's Base64 codec. A 6-bit value is a letter, a digit, \<open>+\<close> or \<open>/\<close>;
  \<open>b64_value\<close> is \<^verbatim>\<open>table_a2b_base64\<close>, \<open>None\<close> for a byte outside the alphabet.
\<close>

definition b64_char :: "nat \<Rightarrow> char" where
  "b64_char n =
     (if n < 26 then char_of (n + 65)
      else if n < 52 then char_of (n + 71)
      else if n < 62 then char_of (n - 4)
      else if n = 62 then CHR ''+'' else CHR ''/'')"

definition b64_value :: "char \<Rightarrow> nat option" where
  "b64_value c =
     (let n = (of_char c :: nat) in
      if 65 \<le> n \<and> n \<le> 90 then Some (n - 65)
      else if 97 \<le> n \<and> n \<le> 122 then Some (n - 71)
      else if 48 \<le> n \<and> n \<le> 57 then Some (n + 4)
      else if n = 43 then Some 62
      else if n = 47 then Some 63
      else None)"

text \<open>\<^verbatim>\<open>binascii.b2a_base64(data)\<close> without its final newline: three bytes give four
  characters, a last group of one or two bytes is padded with \<open>=\<close>.\<close>

fun b2a_groups :: "bytes \<Rightarrow> bytes" where
  "b2a_groups (a # b # c # rest) =
     [b64_char (of_char a div 4),
      b64_char (of_char a mod 4 * 16 + of_char b div 16),
      b64_char (of_char b mod 16 * 4 + of_char c div 64),
      b64_char (of_char c mod 64)] @ b2a_groups rest"
| "b2a_groups [a, b] =
     [b64_char (of_char a div 4),
      b64_char (of_char a mod 4 * 16 + of_char b div 16),
      b64_char (of_char b mod 16 * 4),
      CHR ''='']"
| "b2a_groups [a] =
     [b64_char (of_char a div 4), b64_char (of_char a mod 4 * 16), CHR ''='', CHR ''='']"
| "b2a_groups [] = []"

definition b2a_base64 :: "bytes \<Rightarrow> bytes" where
  "b2a_base64 data = b2a_groups data @ [CHR 0x0A]"

text \<open>
  \<^verbatim>\<open>
  MAXBINSIZE = 57
  def encodebytes(s):
      pieces = []
      for i in range(0, len(s), MAXBINSIZE):
          chunk = s[i : i + MAXBINSIZE]
          pieces.append(binascii.b2a_base64(chunk))
      return b"".join(pieces)
  \<close>
\<close>

function encodebytes :: "bytes \<Rightarrow> bytes" where
  "encodebytes s = (if s = [] then [] else b2a_base64 (take 57 s) @ encodebytes (drop 57 s))"
  by pat_completeness auto
termination
  by (relation "measure length") auto

text \<open>
  \<^verbatim>\<open>binascii.a2b_base64\<close> (not strict), which is \<^verbatim>\<open>decodebytes\<close>: bytes outside the
  alphabet are skipped; \<open>quad_pos\<close> counts the characters of the current group of four,
  \<open>leftchar\<close> holds the bits not yet output, \<open>pads\<close> the \<open>=\<close> seen in a row. A complete
  padding ends the decoding; input that ends inside a group is an error.
\<close>

fun a2b_base64 :: "nat \<Rightarrow> nat \<Rightarrow> nat \<Rightarrow> bytes \<Rightarrow> bytes \<Rightarrow> exn + bytes" where
  "a2b_base64 quad_pos leftchar pads out [] =
     (if quad_pos \<noteq> 0 then Inl BinasciiError else Inr out)"
| "a2b_base64 quad_pos leftchar pads out (this_ch # rest) =
     (if this_ch = CHR ''='' then
        (if quad_pos \<ge> 2 \<and> quad_pos + (pads + 1) \<ge> 4 then Inr out
         else a2b_base64 quad_pos leftchar (if quad_pos \<ge> 2 then pads + 1 else pads) out rest)
      else
        case b64_value this_ch of
          None \<Rightarrow> a2b_base64 quad_pos leftchar pads out rest
        | Some v \<Rightarrow>
            (if quad_pos = 0 then a2b_base64 1 v 0 out rest
             else if quad_pos = 1 then
               a2b_base64 2 (v mod 16) 0 (out @ [char_of (leftchar * 4 + v div 16)]) rest
             else if quad_pos = 2 then
               a2b_base64 3 (v mod 4) 0 (out @ [char_of (leftchar * 16 + v div 4)]) rest
             else a2b_base64 0 0 0 (out @ [char_of (leftchar * 64 + v)]) rest))"

definition decodebytes :: "bytes \<Rightarrow> exn + bytes" where
  "decodebytes s = a2b_base64 0 0 0 [] s"

declare a2b_base64.simps [simp del]

declare encodebytes.simps [simp del]

subsection \<open>\<^verbatim>\<open>PickleSerializer\<close>\<close>

text \<open>
  \<^verbatim>\<open>
  class PickleSerializer:
      def dumps(self, obj: Any) -> bytes:
          blob = pickle.dumps(obj)
          return base64.encodebytes(blob)
      def loads(self, blob: bytes) -> Any:
          return pickle.loads(base64.decodebytes(blob))
  \<close>
\<close>

definition PickleSerializer :: "'a runtime \<Rightarrow> serializer" where
  "PickleSerializer rt =
     \<lparr>dumps = (\<lambda>obj. case pickle_dumps rt obj of
                       Inl exc \<Rightarrow> Inl exc
                     | Inr blob \<Rightarrow> Inr (encodebytes blob)),
      loads = (\<lambda>blob. case decodebytes blob of
                        Inl exc \<Rightarrow> Inl exc
                      | Inr raw \<Rightarrow> pickle_loads rt raw)\<rparr>"

section \<open>Construction and the decorator\<close>

text \<open>\<^verbatim>\<open>namespace.split(".")\<close>\<close>

fun split_on :: "char \<Rightarrow> string \<Rightarrow> string list" where
  "split_on sep [] = [[]]"
| "split_on sep (c # cs) =
     (if c = sep then [] # split_on sep cs
      else case split_on sep cs of
             [] \<Rightarrow> [[c]]
           | part # parts \<Rightarrow> (c # part) # parts)"

text \<open>\<^verbatim>\<open>cache_dir.joinpath(*parts)\<close>: empty segments are dropped. Segments are taken as
  names; one that is itself an absolute path is outside the model.\<close>

definition joinpath :: "path \<Rightarrow> string list \<Rightarrow> path" where
  "joinpath d parts = d @ filter (\<lambda>part. part \<noteq> []) parts"

text \<open>
  \<^verbatim>\<open>
  def __init__(self, cache_dir, namespace=None, is_method=False, serializer=None):
      self.is_method = is_method
      if not isinstance(cache_dir, Path):
          cache_dir = Path(cache_dir)
      if namespace is not None and (parts := namespace.split(".")):
          cache_dir = cache_dir.joinpath(*parts)
      cache_dir.mkdir(parents=True, exist_ok=True)
      self.cache_dir = cache_dir
      self.serializer = serializer or PickleSerializer()
  \<close>
  The directory argument is \<open>None\<close> or a path; \<^verbatim>\<open>Path(None)\<close> raises \<^verbatim>\<open>TypeError\<close>.
\<close>

definition CacheWrapper_init :: "'a runtime \<Rightarrow> path option \<Rightarrow> string option \<Rightarrow> bool \<Rightarrow> serializer option \<Rightarrow>
    's world \<Rightarrow> (exn + cache_wrapper) \<times> 's world" where
  "CacheWrapper_init rt cache_dir_arg namespace is_method_arg serializer_arg w =
     (case cache_dir_arg of
        None \<Rightarrow> (Inl TypeError, w)
      | Some d \<Rightarrow>
          (let d' = (case namespace of
                       None \<Rightarrow> d
                     | Some ns \<Rightarrow>
                         (let parts = split_on CHR ''.'' ns
                          in if parts \<noteq> [] then joinpath d parts else d))
           in case mkdir w d' of
                (Inl exc, w') \<Rightarrow> (Inl exc, w')
              | (Inr u, w') \<Rightarrow>
                  (Inr \<lparr>is_method = is_method_arg,
                        cache_dir = d',
                        the_serializer =
                          (case serializer_arg of None \<Rightarrow> PickleSerializer rt | Some ser \<Rightarrow> ser)\<rparr>,
                   w')))"

text \<open>The four calling conventions of a callable, as \<^verbatim>\<open>asyncio\<close> and \<^verbatim>\<open>inspect\<close> tell them apart.\<close>

datatype ('a, 's, 'g) callable =
    Function "('a, 's) pyfunc"
  | GeneratorFunction "('a, 's, 'g) pygen"
  | CoroutineFunction "('a, 's) pyfunc"
  | AsyncGeneratorFunction "('a, 's, 'g) pygen"

datatype wrapper_kind = SyncWrapper | SyncGenWrapper | AsyncWrapper | AsyncGenWrapper

fun iscoroutinefunction :: "('a, 's, 'g) callable \<Rightarrow> bool" where
  "iscoroutinefunction (CoroutineFunction f) = True"
| "iscoroutinefunction f = False"

fun isasyncgenfunction :: "('a, 's, 'g) callable \<Rightarrow> bool" where
  "isasyncgenfunction (AsyncGeneratorFunction f) = True"
| "isasyncgenfunction f = False"

fun isgeneratorfunction :: "('a, 's, 'g) callable \<Rightarrow> bool" where
  "isgeneratorfunction (GeneratorFunction f) = True"
| "isgeneratorfunction f = False"

text \<open>\<^verbatim>\<open>__call__\<close> picks the wrapper once; the closure \<^verbatim>\<open>wrapped\<close> holds it with \<^verbatim>\<open>self\<close>
  and \<^verbatim>\<open>func\<close>.\<close>

record ('a, 's, 'g) wrapped =
  bound_self :: cache_wrapper
  wrapper :: wrapper_kind
  func_of :: "('a, 's, 'g) callable"

definition CacheWrapper_call :: "cache_wrapper \<Rightarrow> ('a, 's, 'g) callable \<Rightarrow> ('a, 's, 'g) wrapped" where
  "CacheWrapper_call self func =
     \<lparr>bound_self = self,
      wrapper = (if iscoroutinefunction func then AsyncWrapper
                 else if isasyncgenfunction func then AsyncGenWrapper
                 else if isgeneratorfunction func then SyncGenWrapper
                 else SyncWrapper),
      func_of = func\<rparr>"

text \<open>
  \<^verbatim>\<open>
  def cache(fn=None, *, cache_dir=None, namespace=None, is_method=False, serializer=None):
      if not fn:
          return functools.partial(cache, cache_dir=cache_dir, namespace=namespace, is_method=is_method)
      return CacheWrapper(cache_dir, namespace, is_method, serializer)(fn)
  \<close>
  The result is the partial application with the keyword arguments it holds, or the
  wrapped callable.
\<close>

datatype ('a, 's, 'g) decorated =
    Partial "path option" "string option" bool
  | Wrapped "('a, 's, 'g) wrapped"

definition cache :: "'a runtime \<Rightarrow> ('a, 's, 'g) callable option \<Rightarrow> path option \<Rightarrow> string option \<Rightarrow> bool \<Rightarrow>
    serializer option \<Rightarrow> 's world \<Rightarrow> (exn + ('a, 's, 'g) decorated) \<times> 's world" where
  "cache rt fn cache_dir_arg namespace is_method_arg serializer_arg w =
     (case fn of
        None \<Rightarrow> (Inr (Partial cache_dir_arg namespace is_method_arg), w)
      | Some func \<Rightarrow>
          (case CacheWrapper_init rt cache_dir_arg namespace is_method_arg serializer_arg w of
             (Inl exc, w') \<Rightarrow> (Inl exc, w')
           | (Inr self, w') \<Rightarrow> (Inr (Wrapped (CacheWrapper_call self func)), w')))"

text \<open>Calling what \<^verbatim>\<open>cache\<close> returned on a callable: the partial application calls
  \<^verbatim>\<open>cache(func, cache_dir=..., namespace=..., is_method=...)\<close>; a wrapped callable is not
  a decorator.\<close>

definition apply_decorated :: "'a runtime \<Rightarrow> ('a, 's, 'g) decorated \<Rightarrow> ('a, 's, 'g) callable \<Rightarrow>
    's world \<Rightarrow> (exn + ('a, 's, 'g) decorated) \<times> 's world" where
  "apply_decorated rt d func w =
     (case d of
        Partial cache_dir_arg namespace is_method_arg \<Rightarrow>
          cache rt (Some func) cache_dir_arg namespace is_method_arg None w
      | Wrapped wr \<Rightarrow> (Inl TypeError, w))"

text \<open>\<^verbatim>\<open>@cache\<close> on a definition of \<open>func\<close>.\<close>

definition decorate_bare :: "'a runtime \<Rightarrow> ('a, 's, 'g) callable \<Rightarrow> 's world \<Rightarrow> (exn + ('a, 's, 'g) decorated) \<times> 's world" where
  "decorate_bare rt func w = cache rt (Some func) None None False None w"

text \<open>\<^verbatim>\<open>@cache(cache_dir=..., namespace=..., is_method=..., serializer=...)\<close> on a
  definition of \<open>func\<close>.\<close>

definition decorate_with :: "'a runtime \<Rightarrow> path option \<Rightarrow> string option \<Rightarrow> bool \<Rightarrow> serializer option \<Rightarrow>
    ('a, 's, 'g) callable \<Rightarrow> 's world \<Rightarrow> (exn + ('a, 's, 'g) decorated) \<times> 's world" where
  "decorate_with rt cache_dir_arg namespace is_method_arg serializer_arg func w =
     (case cache rt None cache_dir_arg namespace is_method_arg serializer_arg w of
        (Inl exc, w') \<Rightarrow> (Inl exc, w')
      | (Inr d, w') \<Rightarrow> apply_decorated rt d func w')"


section \<open>A concrete runtime and concrete callables\<close>

text \<open>
  For evaluating the model on concrete calls the parameters are instantiated:
  arguments are integers and \<open>str_int\<close> is \<^verbatim>\<open>str\<close> on them; \<open>hex_name\<close> stands in for
  the SHA-256 digest (the hexadecimal rendering of the key string: like the digest a
  function of the key string alone, and injective); \<open>small_pickle_dumps\<close> and
  \<open>small_pickle_loads\<close> are pickle protocol 4 on \<^verbatim>\<open>None\<close>, the booleans, the integers
  from 0 to 255 and lists of at most 1000 of these (a payload of four bytes or more is
  framed), the values the examples use; any other value is outside this stand-in and
  reported as an error.
\<close>

fun dec_digits :: "nat \<Rightarrow> string" where
  "dec_digits n = (if n < 10 then [char_of (48 + n)] else dec_digits (n div 10) @ [char_of (48 + n mod 10)])"

declare dec_digits.simps [simp del]

definition str_int :: "int \<Rightarrow> string" where
  "str_int i = (if i < 0 then ''-'' @ dec_digits (nat (- i)) else dec_digits (nat i))"

definition hex_digit :: "nat \<Rightarrow> char" where
  "hex_digit n = (if n < 10 then char_of (48 + n) else char_of (87 + n))"

definition hex_name :: "string \<Rightarrow> string" where
  "hex_name s = concat (map (\<lambda>c. [hex_digit (of_char c div 16), hex_digit (of_char c mod 16)]) s)"

fun pickle_item :: "pyval \<Rightarrow> bytes option" where
  "pickle_item PNone = Some [CHR ''N'']"
| "pickle_item (PBool b) = Some [if b then CHR 0x88 else CHR 0x89]"
| "pickle_item (PInt i) = (if 0 \<le> i \<and> i < 256 then Some [CHR ''K'', char_of i] else None)"
| "pickle_item v = None"

definition pickle_payload :: "pyval \<Rightarrow> bytes option" where
  "pickle_payload v =
     (case v of
        PList xs \<Rightarrow>
          if length xs \<le> 1000 \<and> list_all (\<lambda>x. pickle_item x \<noteq> None) xs then
            Some ([CHR '']'', CHR 0x94] @
                  (case xs of
                     [] \<Rightarrow> []
                   | [x] \<Rightarrow> the (pickle_item x) @ [CHR ''a'']
                   | _ \<Rightarrow> [CHR ''(''] @ concat (map (\<lambda>x. the (pickle_item x)) xs) @ [CHR ''e'']) @
                  [CHR ''.''])
          else None
      | _ \<Rightarrow> map_option (\<lambda>b. b @ [CHR ''.'']) (pickle_item v))"

definition le64 :: "nat \<Rightarrow> bytes" where
  "le64 n = map (\<lambda>i. char_of (n div 256 ^ i)) [0..<8]"

definition small_pickle_dumps :: "pyval \<Rightarrow> exn + bytes" where
  "small_pickle_dumps v =
     (case pickle_payload v of
        None \<Rightarrow> Inl PicklingError
      | Some payload \<Rightarrow>
          Inr ([CHR 0x80, CHR 0x04] @
               (if length payload \<ge> 4 then CHR 0x95 # le64 (length payload) else []) @
               payload))"

fun unpickle_items :: "bytes \<Rightarrow> pyval list \<times> bytes" where
  "unpickle_items [] = ([], [])"
| "unpickle_items (c # cs) =
     (if c = CHR ''N'' then (case unpickle_items cs of (vs, r) \<Rightarrow> (PNone # vs, r))
      else if c = CHR 0x88 then (case unpickle_items cs of (vs, r) \<Rightarrow> (PBool True # vs, r))
      else if c = CHR 0x89 then (case unpickle_items cs of (vs, r) \<Rightarrow> (PBool False # vs, r))
      else if c = CHR ''K'' then
        (case cs of
           [] \<Rightarrow> ([], c # cs)
         | b # cs' \<Rightarrow> (case unpickle_items cs' of (vs, r) \<Rightarrow> (PInt (of_char b) # vs, r)))
      else ([], c # cs))"

definition unpickle_value :: "bytes \<Rightarrow> exn + pyval" where
  "unpickle_value p =
     (if take 2 p = [CHR '']'', CHR 0x94] then
        (case drop 2 p of
           [] \<Rightarrow> Inl UnpicklingError
         | c # q \<Rightarrow>
             if c # q = [CHR ''.''] then Inr (PList [])
             else if c = CHR ''('' then
               (case unpickle_items q of
                  (vs, r) \<Rightarrow> if r = [CHR ''e'', CHR ''.''] then Inr (PList vs) else Inl UnpicklingError)
             else
               (case unpickle_items (c # q) of
                  ([v], r) \<Rightarrow> if r = [CHR ''a'', CHR ''.''] then Inr (PList [v]) else Inl UnpicklingError
                | _ \<Rightarrow> Inl UnpicklingError))
      else
        (case unpickle_items p of
           ([v], r) \<Rightarrow> if r = [CHR ''.''] then Inr v else Inl UnpicklingError
         | _ \<Rightarrow> Inl UnpicklingError))"

definition small_pickle_loads :: "bytes \<Rightarrow> exn + pyval" where
  "small_pickle_loads blob =
     (if take 2 blob = [CHR 0x80, CHR 0x04] then
        (case drop 2 blob of
           [] \<Rightarrow> Inl UnpicklingError
         | c # rest \<Rightarrow>
             if c = CHR 0x95 then
               (if take 8 rest = le64 (length rest - 8) \<and> length rest \<ge> 8
                then unpickle_value (drop 8 rest) else Inl UnpicklingError)
             else unpickle_value (c # rest))
      else Inl UnpicklingError)"

definition example_runtime :: "int runtime" where
  "example_runtime =
     \<lparr>str_of = str_int, sha256_hex = hex_name,
      pickle_dumps = small_pickle_dumps, pickle_loads = small_pickle_loads\<rparr>"

text \<open>The wrapper of \<^verbatim>\<open>@cache(cache_dir="tmp")\<close>, and the same for a method.\<close>

definition tmp_wrapper :: cache_wrapper where
  "tmp_wrapper = \<lparr>is_method = False, cache_dir = [''tmp''], the_serializer = PickleSerializer example_runtime\<rparr>"

definition method_wrapper :: cache_wrapper where
  "method_wrapper = \<lparr>is_method = True, cache_dir = [''tmp''], the_serializer = PickleSerializer example_runtime\<rparr>"

text \<open>
  The function of \<^verbatim>\<open>test_cache_sync_func\<close>, whose state is its counter \<^verbatim>\<open>n_calls\<close>:
  \<^verbatim>\<open>
  def fn(a: int):
      nonlocal n_calls
      n_calls += 1
      return a + 1
  \<close>
  and two more: \<^verbatim>\<open>def nothing(a): return None\<close> and
  \<^verbatim>\<open>def failing(a): raise ValueError("no")\<close>. A call with other than one positional
  argument raises \<^verbatim>\<open>TypeError\<close>. None of them mutates its argument.
\<close>

definition fn :: "(int, nat) pyfunc" where
  "fn = \<lparr>name = ''fn'',
          call = (\<lambda>args kwargs n_calls.
                    case (args, kwargs) of
                      ([a], []) \<Rightarrow> (Inr (PInt (a + 1)), n_calls + 1)
                    | _ \<Rightarrow> (Inl TypeError, n_calls)),
          after_call = (\<lambda>args kwargs n_calls. (args, kwargs))\<rparr>"

definition nothing :: "(int, nat) pyfunc" where
  "nothing = \<lparr>name = ''nothing'',
               call = (\<lambda>args kwargs u.
                         case (args, kwargs) of
                           ([a], []) \<Rightarrow> (Inr PNone, u)
                         | _ \<Rightarrow> (Inl TypeError, u)),
               after_call = (\<lambda>args kwargs u. (args, kwargs))\<rparr>"

definition failing :: "(int, nat) pyfunc" where
  "failing = \<lparr>name = ''failing'',
               call = (\<lambda>args kwargs u.
                         case (args, kwargs) of
                           ([a], []) \<Rightarrow> (Inl (UserError ''no''), u)
                         | _ \<Rightarrow> (Inl TypeError, u)),
               after_call = (\<lambda>args kwargs u. (args, kwargs))\<rparr>"

text \<open>
  The generator of \<^verbatim>\<open>test_cache_sync_gen\<close>; its state is the list of items still to
  come, and \<^verbatim>\<open>n_calls\<close> is incremented when its body starts:
  \<^verbatim>\<open>
  def fn(a: int):
      nonlocal n_calls
      n_calls += 1
      for i in range(3):
          yield a + i
  \<close>
\<close>

definition gen_fn :: "(int, nat, bool \<times> pyval list) pygen" where
  "gen_fn = \<lparr>gen_name = ''fn'',
              start = (\<lambda>args kwargs.
                         case (args, kwargs) of
                           ([a], []) \<Rightarrow> Inr (False, map (\<lambda>i. PInt (a + i)) [0, 1, 2])
                         | _ \<Rightarrow> Inl TypeError),
              resume = (\<lambda>g n_calls.
                          case g of (started, items) \<Rightarrow>
                            (case items of
                               [] \<Rightarrow> Inr None
                             | item # rest \<Rightarrow> Inr (Some (item, (True, rest))),
                             if started then n_calls else n_calls + 1))\<rparr>"

text \<open>An empty cache directory without faults, and one whose directory has been removed
  so that no file can be opened for writing.\<close>

definition empty_world :: "nat world" where
  "empty_world = \<lparr>files = Map.empty, fault = (\<lambda>p. None), user = 0, calls = 0\<rparr>"

definition unwritable_world :: "nat world" where
  "unwritable_world = \<lparr>files = Map.empty, fault = (\<lambda>p. Some OpenFault), user = 0, calls = 0\<rparr>"


text \<open>A cache directory whose entry for \<^verbatim>\<open>fn(3)\<close> holds bytes that are not Base64, and
  the same directory on a file system that has become read-only.\<close>

definition corrupt_world :: "nat world" where
  "corrupt_world =
     \<lparr>files = [[''tmp'', ''666e3a33''] \<mapsto> ''garbage''], fault = (\<lambda>p. None), user = 0, calls = 0\<rparr>"

definition readonly_corrupt_world :: "nat world" where
  "readonly_corrupt_world =
     \<lparr>files = [[''tmp'', ''666e3a33''] \<mapsto> ''garbage''], fault = (\<lambda>p. Some ReadOnly), user = 0, calls = 0\<rparr>"

section \<open>Key derivation refines its specification\<close>

lemma join_underscored: "join ''_'' xs = underscored xs"
  by (induction xs rule: underscored.induct) (auto simp: neq_Nil_conv)

lemma join_eq_Nil: "\<forall>x\<in>set xs. x \<noteq> [] \<Longrightarrow> join sep xs = [] \<longleftrightarrow> xs = []"
  by (induction sep xs rule: join.induct) auto

lemma join_Cons: "join sep (x # xs) = (if xs = [] then x else x @ sep @ join sep xs)"
  by (cases xs) auto

lemma colon_joined_join: "colon_joined cs = join '':'' (filter (\<lambda>kp. kp \<noteq> []) cs)"
  by (induction cs) (auto simp: join_Cons join_eq_Nil)

lemma keys_of_sorted_items:
  assumes "distinct (map fst kv)"
  shows "map fst (sorted_items kv) = sorted_list_of_set (fst ` set kv)"
proof (rule sorted_distinct_set_unique)
  show "sorted (map fst (sorted_items kv))"
    by (simp add: sorted_items_def)
  have "card (set (map fst (sorted_items kv))) = card (set (map fst kv))"
    by (simp add: sorted_items_def)
  also have "\<dots> = length (map fst kv)"
    using assms by (rule distinct_card)
  also have "\<dots> = length (map fst (sorted_items kv))"
    by (simp add: sorted_items_def)
  finally show "distinct (map fst (sorted_items kv))"
    by (rule card_distinct)
  show "set (map fst (sorted_items kv)) = set (sorted_list_of_set (fst ` set kv))"
    by (simp add: sorted_items_def)
qed simp_all

lemma pairs_from_keys:
  "\<forall>p\<in>set xs. map_of kv (fst p) = Some (snd p) \<Longrightarrow>
   xs = map (\<lambda>k. (k, the (map_of kv k))) (map fst xs)"
  by (induction xs) auto

lemma sorted_items_by_key:
  assumes "distinct (map fst kv)"
  shows "sorted_items kv = map (\<lambda>k. (k, the (map_of kv k))) (sorted_list_of_set (fst ` set kv))"
proof -
  have "\<forall>p\<in>set (sorted_items kv). map_of kv (fst p) = Some (snd p)"
    using assms by (simp add: sorted_items_def)
  from pairs_from_keys [OF this] show ?thesis
    by (simp only: keys_of_sorted_items [OF assms])
qed

lemma key_string_spec:
  assumes "distinct (map fst kwargs)"
  shows "key_string rt self func_name args kwargs =
         colon_joined [func_name, spec_positional rt (is_method self) args, spec_keyword rt kwargs]"
proof -
  have pos: "join ''_'' (map (str_of rt) (if is_method self then drop 1 args else args)) =
             spec_positional rt (is_method self) args"
    by (cases args) (simp_all add: spec_positional_def join_underscored)
  have kw: "join ''_'' (map (\<lambda>(k, v). k @ ''='' @ str_of rt v) (sorted_items kwargs)) =
            spec_keyword rt kwargs"
    unfolding spec_keyword_def sorted_items_by_key [OF assms] join_underscored
    by (simp add: comp_def)
  show ?thesis
    unfolding key_string_def Let_def pos kw colon_joined_join ..
qed

text \<open>
  Claim C2. \<^verbatim>\<open>make_key\<close> is a function of the function name, the arguments and the
  bound-method flag, and it equals the reference definition \<open>spec_key\<close>: the digest of
  the colon-joined non-empty components (name; positional arguments rendered by \<^verbatim>\<open>str\<close>
  and underscore-joined, without the first one for a bound method; keyword arguments as
  \<open>key=value\<close> in key order, underscore-joined). The keyword arguments come from a
  \<^verbatim>\<open>dict\<close>, so their keys are distinct. For a bound method two calls that differ only in
  the receiver have the same key.
\<close>

theorem make_key_refines_spec:
  assumes "distinct (map fst kwargs)"
  shows "make_key rt self func_name args kwargs = spec_key rt (is_method self) func_name args kwargs
       \<and> (is_method self \<longrightarrow>
            make_key rt self func_name (receiver # rest) kwargs =
            make_key rt self func_name (other_receiver # rest) kwargs)"
  using key_string_spec [OF assms]
  by (simp add: make_key_def spec_key_def key_string_def)

lemma example_key_string:
  "key_string example_runtime method_wrapper ''fn'' [7, 3] [(''b'', 2), (''a'', 1)] = ''fn:3:a=1_b=2''"
  by code_simp

theorem make_key_refines_spec_witness:
  "distinct (map fst [(''b'', 2 :: int), (''a'', 1)])
   \<and> is_method method_wrapper
   \<and> make_key example_runtime method_wrapper ''fn'' [7, 3] [(''b'', 2), (''a'', 1)] =
       spec_key example_runtime True ''fn'' [7, 3] [(''b'', 2), (''a'', 1)]
   \<and> make_key example_runtime method_wrapper ''fn'' [7, 3] [(''b'', 2), (''a'', 1)] =
       make_key example_runtime method_wrapper ''fn'' [9, 3] [(''b'', 2), (''a'', 1)]
   \<and> make_key example_runtime method_wrapper ''fn'' [7, 3] [(''b'', 2), (''a'', 1)] =
       sha256_hex example_runtime ''fn:3:a=1_b=2''"
proof -
  have d: "distinct (map fst [(''b'', 2 :: int), (''a'', 1)])"
    by simp
  have m: "is_method method_wrapper"
    by (simp add: method_wrapper_def)
  note r = make_key_refines_spec [OF d, of example_runtime method_wrapper "''fn''" "[7, 3]" 7 "[3]" 9]
  have a: "make_key example_runtime method_wrapper ''fn'' [7, 3] [(''b'', 2), (''a'', 1)] =
           spec_key example_runtime True ''fn'' [7, 3] [(''b'', 2), (''a'', 1)]"
    using r [THEN conjunct1] by (simp only: m [THEN eqTrueI])
  have b: "make_key example_runtime method_wrapper ''fn'' [7, 3] [(''b'', 2), (''a'', 1)] =
           make_key example_runtime method_wrapper ''fn'' [9, 3] [(''b'', 2), (''a'', 1)]"
    using r [THEN conjunct2, rule_format, OF m] .
  have c: "make_key example_runtime method_wrapper ''fn'' [7, 3] [(''b'', 2), (''a'', 1)] =
           sha256_hex example_runtime ''fn:3:a=1_b=2''"
    by (simp add: make_key_def example_key_string)
  show ?thesis
    by (intro conjI d m a b c)
qed

section \<open>Reading and writing entries\<close>

lemma read_cases:
  "read rt self fn_name args kwargs w =
     (let p = cache_file rt self fn_name args kwargs in
      case files w p of
        None \<Rightarrow> (Inr PNone, w)
      | Some blob \<Rightarrow>
          (if fault w p = Some ReadFault then (Inr PNone, w\<lparr>files := (files w)(p := None)\<rparr>)
           else case loads (the_serializer self) blob of
                  Inl exc \<Rightarrow>
                    if fault w p = Some ReadOnly then (Inl OSError, w)
                    else (Inr PNone, w\<lparr>files := (files w)(p := None)\<rparr>)
                | Inr content \<Rightarrow> (Inr content, w)))"
  by (auto simp: read_def path_exists_def read_bytes_def unlink_def Let_def split: option.splits sum.splits)

lemma write_cases:
  "write rt self content fn_name args kwargs w =
     (let p = cache_file rt self fn_name args kwargs in
      if fault w p = Some OpenFault \<or> fault w p = Some ReadOnly then
        (case files w p of
           None \<Rightarrow> (Inl FileNotFoundError, w)
         | Some b \<Rightarrow>
             if fault w p = Some ReadOnly then (Inl OSError, w)
             else (Inr (), w\<lparr>files := (files w)(p := None)\<rparr>))
      else
        case dumps (the_serializer self) content of
          Inl exc \<Rightarrow> (Inr (), w\<lparr>files := (files w)(p := None)\<rparr>)
        | Inr blob \<Rightarrow>
            (case fault w p of
               Some (WriteFault n) \<Rightarrow> (Inr (), w\<lparr>files := (files w)(p := None)\<rparr>)
             | _ \<Rightarrow> (Inr (), w\<lparr>files := (files w)(p \<mapsto> blob)\<rparr>)))"
  by (auto simp: write_def open_wb_def write_bytes_def unlink_def Let_def
           split: option.splits sum.splits io_fault.splits)

lemma read_absent:
  "files w (cache_file rt self fn_name args kwargs) = None \<Longrightarrow>
   read rt self fn_name args kwargs w = (Inr PNone, w)"
  by (simp add: read_cases)

lemma read_returns:
  "fault w (cache_file rt self fn_name args kwargs) \<noteq> Some ReadOnly \<Longrightarrow>
   \<exists>h. fst (read rt self fn_name args kwargs w) = Inr h"
  by (simp add: read_cases Let_def split: option.splits sum.splits)

lemma read_user_calls:
  "user (snd (read rt self fn_name args kwargs w)) = user w
   \<and> calls (snd (read rt self fn_name args kwargs w)) = calls w
   \<and> fault (snd (read rt self fn_name args kwargs w)) = fault w"
  by (simp add: read_cases Let_def split: option.splits sum.splits)

lemma read_files:
  "files (snd (read rt self fn_name args kwargs w)) = files w \<or>
   files (snd (read rt self fn_name args kwargs w)) = (files w)(cache_file rt self fn_name args kwargs := None)"
  by (simp add: read_cases Let_def split: option.splits sum.splits)





lemma example_cache_file: "cache_file example_runtime tmp_wrapper ''fn'' [3] [] = [''tmp'', ''666e3a33'']"
  by code_simp

lemma garbage_is_not_base64: "loads (the_serializer tmp_wrapper) ''garbage'' = Inl BinasciiError"
  by code_simp

text \<open>
  Claim C3 fails on the code when the corrupt entry cannot be removed: the handler of
  \<^verbatim>\<open>read\<close> calls \<^verbatim>\<open>cache_file.unlink()\<close> unguarded, so on a file system that has become
  read-only the error of \<^verbatim>\<open>unlink\<close> leaves \<^verbatim>\<open>read\<close> and the wrapper, the entry stays, and
  the caller of \<^verbatim>\<open>fn(3)\<close> gets an exception although the function was never invoked.
\<close>

theorem corrupt_entry_error_reaches_caller:
  "fst (read example_runtime tmp_wrapper ''fn'' [3] [] readonly_corrupt_world) = Inl OSError
   \<and> files (snd (read example_runtime tmp_wrapper ''fn'' [3] [] readonly_corrupt_world))
        [''tmp'', ''666e3a33''] = Some ''garbage''
   \<and> fst (sync_wrapper example_runtime tmp_wrapper fn [3] [] readonly_corrupt_world) = Inl OSError
   \<and> calls (snd (sync_wrapper example_runtime tmp_wrapper fn [3] [] readonly_corrupt_world)) = 0"
  by code_simp

text \<open>When the entry can be removed, \<^verbatim>\<open>read\<close> heals: it returns \<^verbatim>\<open>None\<close> without raising,
  the file is gone, and a \<^verbatim>\<open>read\<close> of the state it leaves is an ordinary miss.\<close>

lemma read_heals_corrupt_entry:
  assumes "files w (cache_file rt self fn_name args kwargs) = Some blob"
    and "loads (the_serializer self) blob = Inl exc"
    and "fault w (cache_file rt self fn_name args kwargs) \<noteq> Some ReadOnly"
  shows "read rt self fn_name args kwargs w =
           (Inr PNone, w\<lparr>files := (files w)(cache_file rt self fn_name args kwargs := None)\<rparr>)
       \<and> read rt self fn_name args kwargs (w\<lparr>files := (files w)(cache_file rt self fn_name args kwargs := None)\<rparr>) =
           (Inr PNone, w\<lparr>files := (files w)(cache_file rt self fn_name args kwargs := None)\<rparr>)"
  using assms by (simp add: read_cases Let_def)

lemma read_heals_corrupt_entry_example:
  "fst (read example_runtime tmp_wrapper ''fn'' [3] [] corrupt_world) = Inr PNone
   \<and> files (snd (read example_runtime tmp_wrapper ''fn'' [3] [] corrupt_world)) [''tmp'', ''666e3a33''] = None"
proof -
  have f: "files corrupt_world (cache_file example_runtime tmp_wrapper ''fn'' [3] []) = Some ''garbage''"
    by (simp add: example_cache_file corrupt_world_def)
  have n: "fault corrupt_world (cache_file example_runtime tmp_wrapper ''fn'' [3] []) \<noteq> Some ReadOnly"
    by (simp add: corrupt_world_def)
  from read_heals_corrupt_entry [OF f garbage_is_not_base64 n]
  show ?thesis
    by (simp add: example_cache_file)
qed

text \<open>
  Claim C4 fails on the code when the entry file cannot be opened and does not exist: the
  handler of \<^verbatim>\<open>write\<close> calls \<^verbatim>\<open>cache_file.unlink()\<close> on a file that was never created, and
  the \<^verbatim>\<open>FileNotFoundError\<close> of \<^verbatim>\<open>unlink\<close> leaves \<^verbatim>\<open>write\<close> and the wrapper, so the caller
  does not get the result \<open>4\<close> that \<^verbatim>\<open>fn(3)\<close> computed.
\<close>

theorem write_failure_reaches_caller:
  "fst (write example_runtime tmp_wrapper (PInt 4) ''fn'' [3] [] unwritable_world) = Inl FileNotFoundError
   \<and> fst (sync_wrapper example_runtime tmp_wrapper fn [3] [] unwritable_world) = Inl FileNotFoundError
   \<and> calls (snd (sync_wrapper example_runtime tmp_wrapper fn [3] [] unwritable_world)) = 1"
  by code_simp

text \<open>When the file could be opened, a failure of \<^verbatim>\<open>dumps\<close> or of \<^verbatim>\<open>f.write\<close> is swallowed
  and the partial file is removed.\<close>

lemma write_swallows_after_open:
  assumes "fault w (cache_file rt self fn_name args kwargs) \<noteq> Some OpenFault"
    and "fault w (cache_file rt self fn_name args kwargs) \<noteq> Some ReadOnly"
  shows "fst (write rt self content fn_name args kwargs w) = Inr ()"
    and "dumps (the_serializer self) content = Inl exc \<Longrightarrow>
         files (snd (write rt self content fn_name args kwargs w)) (cache_file rt self fn_name args kwargs) = None"
    and "fault w (cache_file rt self fn_name args kwargs) = Some (WriteFault n) \<Longrightarrow>
         files (snd (write rt self content fn_name args kwargs w)) (cache_file rt self fn_name args kwargs) = None"
  using assms by (simp_all add: write_cases Let_def split: sum.splits option.splits io_fault.splits)

section \<open>The function wrappers\<close>

lemma async_wrapper_eq: "async_wrapper = sync_wrapper"
  by (intro ext) (simp add: async_wrapper_def sync_wrapper_def)

lemma sync_wrapper_miss_raise:
  assumes miss: "fst (read rt self (name func) args kwargs w) = Inr PNone"
    and raises: "call func args kwargs (user w) = (Inl exc, u')"
  shows "sync_wrapper rt self func args kwargs w =
           (Inl exc, (snd (read rt self (name func) args kwargs w))\<lparr>user := u', calls := calls w + 1\<rparr>)"
proof -
  obtain w1 where r: "read rt self (name func) args kwargs w = (Inr PNone, w1)"
    using miss by (cases "read rt self (name func) args kwargs w") simp
  have "user w1 = user w" "calls w1 = calls w"
    using read_user_calls [of rt self "name func" args kwargs w] r by simp_all
  then show ?thesis
    using raises by (simp add: sync_wrapper_def r invoke_def)
qed

text \<open>
  Claim C9. On a miss (the lookup returns \<^verbatim>\<open>None\<close>), if the wrapped function raises,
  the synchronous and the asynchronous wrapper raise the same exception; the files are
  those the lookup left, so nothing is written (every entry afterwards was there before,
  and if the key had no entry the files are unchanged); and the function has been
  invoked once, not again.
\<close>

theorem wrapped_failure_propagates:
  assumes miss: "fst (read rt self (name func) args kwargs w) = Inr PNone"
    and raises: "call func args kwargs (user w) = (Inl exc, u')"
  shows "\<forall>wrapper \<in> {sync_wrapper, async_wrapper}.
           fst (wrapper rt self func args kwargs w) = Inl exc
         \<and> files (snd (wrapper rt self func args kwargs w)) = files (snd (read rt self (name func) args kwargs w))
         \<and> (\<forall>q. files (snd (wrapper rt self func args kwargs w)) q = None
                \<or> files (snd (wrapper rt self func args kwargs w)) q = files w q)
         \<and> (files w (cache_file rt self (name func) args kwargs) = None \<longrightarrow>
                files (snd (wrapper rt self func args kwargs w)) = files w)
         \<and> user (snd (wrapper rt self func args kwargs w)) = u'
         \<and> calls (snd (wrapper rt self func args kwargs w)) = calls w + 1"
proof -
  have abs: "files w (cache_file rt self (name func) args kwargs) = None \<Longrightarrow>
             files (snd (read rt self (name func) args kwargs w)) = files w"
    by (simp add: read_absent)
  show ?thesis
    using read_files [of rt self "name func" args kwargs w] abs
    by (auto simp: async_wrapper_eq sync_wrapper_miss_raise [OF miss raises])
qed

lemma failing_cache_file: "cache_file example_runtime tmp_wrapper (name failing) [3] [] = [''tmp'', ''6661696c696e673a33'']"
  by code_simp

theorem wrapped_failure_propagates_witness:
  "fst (read example_runtime tmp_wrapper (name failing) [3] [] empty_world) = Inr PNone
   \<and> call failing [3] [] (user empty_world) = (Inl (UserError ''no''), 0)
   \<and> files empty_world (cache_file example_runtime tmp_wrapper (name failing) [3] []) = None
   \<and> fst (sync_wrapper example_runtime tmp_wrapper failing [3] [] empty_world) = Inl (UserError ''no'')
   \<and> fst (async_wrapper example_runtime tmp_wrapper failing [3] [] empty_world) = Inl (UserError ''no'')
   \<and> files (snd (sync_wrapper example_runtime tmp_wrapper failing [3] [] empty_world)) = files empty_world
   \<and> files (snd (async_wrapper example_runtime tmp_wrapper failing [3] [] empty_world)) = files empty_world
   \<and> calls (snd (sync_wrapper example_runtime tmp_wrapper failing [3] [] empty_world)) = 1
   \<and> calls (snd (async_wrapper example_runtime tmp_wrapper failing [3] [] empty_world)) = 1"
proof -
  have a: "files empty_world (cache_file example_runtime tmp_wrapper (name failing) [3] []) = None"
    by (simp add: empty_world_def)
  have m: "fst (read example_runtime tmp_wrapper (name failing) [3] [] empty_world) = Inr PNone"
    by (simp add: read_absent [OF a])
  have r: "call failing [3] [] (user empty_world) = (Inl (UserError ''no''), 0)"
    by (simp add: failing_def empty_world_def)
  have c: "calls empty_world = 0"
    by (simp add: empty_world_def)
  from wrapped_failure_propagates [OF m r] show ?thesis
    using a m r c by (simp add: read_absent [OF a])
qed









text \<open>
  Claim C1 as stated fails: \<^verbatim>\<open>nothing(3)\<close> returns \<^verbatim>\<open>None\<close>, its entry is written, and the
  second call still invokes the function, twice in all.
\<close>

theorem none_result_is_computed_twice:
  "call nothing [3] [] (user empty_world) = (Inr PNone, 0)
   \<and> calls empty_world = 0
   \<and> fst (sync_wrapper example_runtime tmp_wrapper nothing [3] [] empty_world) = Inr PNone
   \<and> fst (sync_wrapper example_runtime tmp_wrapper nothing [3] []
             (snd (sync_wrapper example_runtime tmp_wrapper nothing [3] [] empty_world))) = Inr PNone
   \<and> calls (snd (sync_wrapper example_runtime tmp_wrapper nothing [3] []
             (snd (sync_wrapper example_runtime tmp_wrapper nothing [3] [] empty_world)))) = 2"
  by code_simp


text \<open>
  Claim C1, amended. Let no I/O fault affect the entry file; let the function, when
  invoked with these arguments in the current state, return (not raise) a value other
  than \<^verbatim>\<open>None\<close> that the serializer encodes to bytes which decode back to it; and let
  the call leave the key of its arguments as it was (it does not mutate an argument in
  a way that changes its text form). Then two calls in a row with these arguments
  return the same value, and over both the function is invoked at most once.
\<close>

theorem second_call_is_hit:
  assumes nofault: "fault w (cache_file rt self (name func) args kwargs) = None"
    and fn: "call func args kwargs (user w) = (Inr v, u')"
    and unchanged: "after_call func args kwargs (user w) = (args', kwargs')"
      "make_key rt self (name func) args' kwargs' = make_key rt self (name func) args kwargs"
    and notnone: "v \<noteq> PNone"
    and enc: "dumps (the_serializer self) v = Inr blob"
    and dec: "loads (the_serializer self) blob = Inr v"
  shows "fst (sync_wrapper rt self func args kwargs (snd (sync_wrapper rt self func args kwargs w)))
           = fst (sync_wrapper rt self func args kwargs w)
       \<and> (\<exists>x. fst (sync_wrapper rt self func args kwargs w) = Inr x)
       \<and> calls (snd (sync_wrapper rt self func args kwargs (snd (sync_wrapper rt self func args kwargs w))))
           \<le> calls w + 1"
proof -
  let ?p = "cache_file rt self (name func) args kwargs"
  have same: "cache_file rt self (name func) args' kwargs' = ?p"
    by (simp add: cache_file_def unchanged(2))
  have "fault w ?p \<noteq> Some ReadOnly"
    using nofault by simp
  then obtain h where "fst (read rt self (name func) args kwargs w) = Inr h"
    using read_returns by blast
  then obtain w1 where r: "read rt self (name func) args kwargs w = (Inr h, w1)"
    by (cases "read rt self (name func) args kwargs w") simp
  have w1: "user w1 = user w" "calls w1 = calls w" "fault w1 = fault w"
    using read_user_calls [of rt self "name func" args kwargs w] r by simp_all
  show ?thesis
  proof (cases "h = PNone")
    case False
    have "w1 = w"
      using r False by (auto simp: read_cases Let_def split: option.splits sum.splits if_splits)
    then have "sync_wrapper rt self func args kwargs w = (Inr h, w)"
      using False by (simp add: sync_wrapper_def r)
    then show ?thesis by simp
  next
    case True
    define w2 where "w2 = w1\<lparr>user := u', calls := calls w + 1\<rparr>"
    define w3 where "w3 = w2\<lparr>files := (files w2)(?p \<mapsto> blob)\<rparr>"
    have i: "invoke func args kwargs w1 = (Inr v, w2)"
      by (simp add: invoke_def w1 fn w2_def)
    have wr: "write rt self v (name func) args' kwargs' w2 = (Inr (), w3)"
      using nofault enc by (simp add: write_cases Let_def same w2_def w3_def w1)
    have first: "sync_wrapper rt self func args kwargs w = (Inr v, w3)"
      by (simp add: sync_wrapper_def r True i w1 unchanged(1) wr)
    have "read rt self (name func) args kwargs w3 = (Inr v, w3)"
      using nofault dec by (simp add: read_cases Let_def w3_def w2_def w1)
    then have "sync_wrapper rt self func args kwargs w3 = (Inr v, w3)"
      using notnone by (simp add: sync_wrapper_def)
    then show ?thesis
      by (simp add: first w3_def w2_def)
  qed
qed

lemma four_round_trip:
  "dumps (the_serializer tmp_wrapper) (PInt 4) = Inr (''gARLBC4='' @ [CHR 0x0A])"
  "loads (the_serializer tmp_wrapper) (''gARLBC4='' @ [CHR 0x0A]) = Inr (PInt 4)"
  by code_simp+

theorem second_call_is_hit_witness:
  "fault empty_world (cache_file example_runtime tmp_wrapper (name fn) [3] []) = None
   \<and> call fn [3] [] (user empty_world) = (Inr (PInt 4), 1)
   \<and> after_call fn [3] [] (user empty_world) = ([3], [])
   \<and> PInt 4 \<noteq> PNone
   \<and> dumps (the_serializer tmp_wrapper) (PInt 4) = Inr (''gARLBC4='' @ [CHR 0x0A])
   \<and> loads (the_serializer tmp_wrapper) (''gARLBC4='' @ [CHR 0x0A]) = Inr (PInt 4)
   \<and> fst (sync_wrapper example_runtime tmp_wrapper fn [3] [] empty_world) = Inr (PInt 4)
   \<and> fst (sync_wrapper example_runtime tmp_wrapper fn [3] []
             (snd (sync_wrapper example_runtime tmp_wrapper fn [3] [] empty_world))) = Inr (PInt 4)
   \<and> calls (snd (sync_wrapper example_runtime tmp_wrapper fn [3] []
             (snd (sync_wrapper example_runtime tmp_wrapper fn [3] [] empty_world)))) \<le> 1"
proof -
  have nf: "fault empty_world (cache_file example_runtime tmp_wrapper (name fn) [3] []) = None"
    by (simp add: empty_world_def)
  have c: "call fn [3] [] (user empty_world) = (Inr (PInt 4), 1)"
    by (simp add: fn_def empty_world_def)
  have n: "PInt 4 \<noteq> PNone"
    by simp
  have first: "fst (sync_wrapper example_runtime tmp_wrapper fn [3] [] empty_world) = Inr (PInt 4)"
    by code_simp
  have z: "calls empty_world = 0"
    by (simp add: empty_world_def)
  have ac: "after_call fn [3] [] (user empty_world) = ([3], [])"
    by (simp add: fn_def)
  note t = second_call_is_hit [OF nf c ac refl n four_round_trip]
  have second: "fst (sync_wrapper example_runtime tmp_wrapper fn [3] []
             (snd (sync_wrapper example_runtime tmp_wrapper fn [3] [] empty_world))) = Inr (PInt 4)"
    using t [THEN conjunct1] by (simp only: first)
  have once: "calls (snd (sync_wrapper example_runtime tmp_wrapper fn [3] []
             (snd (sync_wrapper example_runtime tmp_wrapper fn [3] [] empty_world)))) \<le> 1"
    using t [THEN conjunct2, THEN conjunct2] by (simp only: z add_0)
  show ?thesis
    by (intro conjI nf c ac n four_round_trip first second once)
qed

section \<open>The decorator\<close>

text \<open>
  Claim C7 fails on the code: used bare, \<^verbatim>\<open>cache(fn)\<close> passes \<^verbatim>\<open>cache_dir=None\<close> to
  \<^verbatim>\<open>CacheWrapper\<close>, and \<^verbatim>\<open>Path(None)\<close> raises \<^verbatim>\<open>TypeError\<close> before any directory is
  created; there is no default directory. The same holds for \<^verbatim>\<open>@cache(...)\<close> without
  \<^verbatim>\<open>cache_dir\<close>.
\<close>

theorem bare_decorator_raises:
  "decorate_bare rt func w = (Inl TypeError, w)
   \<and> decorate_with rt None namespace is_method_arg serializer_arg func w = (Inl TypeError, w)"
  by (simp add: decorate_bare_def decorate_with_def apply_decorated_def cache_def CacheWrapper_init_def)


text \<open>
  Claim C8 fails on the code: the partial application that \<^verbatim>\<open>cache(...)\<close> returns
  holds \<^verbatim>\<open>cache_dir\<close>, \<^verbatim>\<open>namespace\<close> and \<^verbatim>\<open>is_method\<close> but not \<^verbatim>\<open>serializer\<close>, so
  \<^verbatim>\<open>@cache(cache_dir=d, serializer=ser)\<close> builds a wrapper with the default
  \<^verbatim>\<open>PickleSerializer\<close>, the same as without the override.
\<close>

theorem serializer_override_is_dropped:
  "decorate_with rt (Some d) None is_method_arg (Some ser) func w =
     (if fault w d = Some MkdirFault then (Inl OSError, w)
      else (Inr (Wrapped (CacheWrapper_call
                 \<lparr>is_method = is_method_arg, cache_dir = d, the_serializer = PickleSerializer rt\<rparr> func)), w))
   \<and> decorate_with rt cache_dir_arg namespace is_method_arg (Some ser) func w =
     decorate_with rt cache_dir_arg namespace is_method_arg None func w"
  by (simp add: decorate_with_def apply_decorated_def cache_def CacheWrapper_init_def mkdir_def)

text \<open>The direct call \<^verbatim>\<open>cache(fn, cache_dir=d, serializer=ser)\<close> does pass the override on.\<close>

lemma direct_call_keeps_serializer:
  "fault w d \<noteq> Some MkdirFault \<Longrightarrow>
   cache rt (Some func) (Some d) None is_method_arg (Some ser) w =
     (Inr (Wrapped (CacheWrapper_call \<lparr>is_method = is_method_arg, cache_dir = d, the_serializer = ser\<rparr> func)), w)"
  by (simp add: cache_def CacheWrapper_init_def mkdir_def)


section \<open>The generator wrappers\<close>

lemma async_gen_running_eq:
  "async_gen_running rt self func args kwargs st w = sync_gen_running rt self func args kwargs st w"
  by (simp add: async_gen_running_def sync_gen_running_def)

lemma async_gen_next_eq: "async_gen_next = sync_gen_next"
  by (intro ext)
     (simp add: async_gen_next_def sync_gen_next_def async_gen_running_eq
           split: wrapper_gen.split prod.split sum.split)

lemma forwarding_step:
  "sync_gen_next rt self func args kwargs (Forwarding g content) w =
     (case resume func g (user w) of
        (Inl exc, u') \<Rightarrow> (Inl exc, Closed, w\<lparr>user := u'\<rparr>)
      | (Inr (Some (item, g')), u') \<Rightarrow>
          (Inr (Some item), Forwarding g' (content @ [item]), w\<lparr>user := u'\<rparr>)
      | (Inr None, u') \<Rightarrow>
          (case write rt self (PList content) (gen_name func) args kwargs (w\<lparr>user := u'\<rparr>) of
             (Inl exc, w') \<Rightarrow> (Inl exc, Closed, w')
           | (Inr u, w') \<Rightarrow> (Inr None, Closed, w')))"
  by (simp add: sync_gen_next_def sync_gen_running_def)

lemma replaying_step:
  "sync_gen_next rt self func args kwargs (Replaying xs) w =
     (case xs of [] \<Rightarrow> (Inr None, Closed, w) | item # rest \<Rightarrow> (Inr (Some item), Replaying rest, w))"
  by (simp add: sync_gen_next_def sync_gen_running_def split: list.splits)

lemma closed_step: "sync_gen_next rt self func args kwargs Closed w = (Inr None, Closed, w)"
  by (simp add: sync_gen_next_def sync_gen_running_def)

lemma take_items_forwarding:
  "take_items n (sync_gen_next rt self func args kwargs) (Forwarding g c) w = (items, Forwarding g' c', w')
   \<Longrightarrow> c' = c @ items \<and> files w' = files w \<and> length items = n"
proof (induction n arbitrary: g c w items)
  case 0
  then show ?case by simp
next
  case (Suc n)
  obtain r u' where res: "resume func g (user w) = (r, u')"
    by (cases "resume func g (user w)")
  show ?case
  proof (cases r)
    case (Inl exc)
    with Suc.prems res show ?thesis
      by (simp add: forwarding_step)
  next
    case (Inr o1)
    show ?thesis
    proof (cases o1)
      case None
      with Suc.prems res Inr show ?thesis
        by (simp add: forwarding_step split: prod.splits sum.splits)
    next
      case (Some ig)
      obtain item g1 where ig: "ig = (item, g1)" by (cases ig)
      obtain items1 where
        t: "take_items n (sync_gen_next rt self func args kwargs) (Forwarding g1 (c @ [item])) (w\<lparr>user := u'\<rparr>)
              = (items1, Forwarding g' c', w')"
        and i: "items = item # items1"
        using Suc.prems res Inr Some ig
        by (auto simp: forwarding_step split: prod.splits)
      from Suc.IH [OF t] show ?thesis
        using i by simp
    qed
  qed
qed

lemma take_items_closed:
  "take_items n (sync_gen_next rt self func args kwargs) Closed w = ([], Closed, w)"
  by (cases n) (simp_all add: closed_step)

lemma take_items_replaying:
  "take_items n (sync_gen_next rt self func args kwargs) (Replaying xs) w = (items, st, w')
   \<Longrightarrow> (st = Closed \<or> (\<exists>ys. st = Replaying ys)) \<and> w' = w"
proof (induction n arbitrary: xs items)
  case 0
  then show ?case by auto
next
  case (Suc n)
  show ?case
  proof (cases xs)
    case Nil
    with Suc.prems show ?thesis by (simp add: replaying_step)
  next
    case (Cons x rest)
    with Suc.prems obtain items1 where
      "take_items n (sync_gen_next rt self func args kwargs) (Replaying rest) w = (items1, st, w')"
      by (auto simp: replaying_step split: prod.splits)
    from Suc.IH [OF this] show ?thesis .
  qed
qed

lemma take_items_forwarding_shape:
  "take_items n (sync_gen_next rt self func args kwargs) (Forwarding g c) w = (items, st, w')
   \<Longrightarrow> st = Closed \<or> (\<exists>g' c'. st = Forwarding g' c')"
proof (induction n arbitrary: g c w items)
  case 0
  then show ?case by auto
next
  case (Suc n)
  obtain r u' where res: "resume func g (user w) = (r, u')"
    by (cases "resume func g (user w)")
  show ?case
  proof (cases r)
    case (Inl exc)
    with Suc.prems res show ?thesis
      by (auto simp: forwarding_step)
  next
    case (Inr o1)
    show ?thesis
    proof (cases o1)
      case None
      with Suc.prems res Inr show ?thesis
        by (auto simp: forwarding_step split: prod.splits sum.splits)
    next
      case (Some ig)
      obtain item g1 where ig: "ig = (item, g1)" by (cases ig)
      obtain items1 where
        "take_items n (sync_gen_next rt self func args kwargs) (Forwarding g1 (c @ [item])) (w\<lparr>user := u'\<rparr>)
              = (items1, st, w')"
        using Suc.prems res Inr Some ig
        by (auto simp: forwarding_step split: prod.splits)
      from Suc.IH [OF this] show ?thesis .
    qed
  qed
qed

lemma created_step_miss:
  assumes "read rt self (gen_name func) args kwargs w = (Inr PNone, w1)"
    and "start func args kwargs = Inr g"
  shows "sync_gen_next rt self func args kwargs Created w =
         sync_gen_next rt self func args kwargs (Forwarding g []) (w1\<lparr>calls := calls w1 + 1\<rparr>)"
  using assms by (simp add: sync_gen_next_def)

lemma created_step_hit:
  assumes "read rt self (gen_name func) args kwargs w = (Inr h, w1)"
    and "h \<noteq> PNone" and "py_iter h = Inr xs"
  shows "sync_gen_next rt self func args kwargs Created w =
         sync_gen_next rt self func args kwargs (Replaying xs) w1"
  using assms by (simp add: sync_gen_next_def)

lemma take_items_cong:
  "nxt st w = nxt st' w' \<Longrightarrow> take_items (Suc n) nxt st w = take_items (Suc n) nxt st' w'"
  by simp

lemma take_items_created:
  assumes t: "take_items n (sync_gen_next rt self func args kwargs) Created w = (items, st, w')"
    and st: "st \<noteq> Closed"
  shows "(files w' = files w \<or> files w' = files (snd (read rt self (gen_name func) args kwargs w)))
       \<and> (\<forall>g' c'. st = Forwarding g' c' \<longrightarrow> c' = items \<and> length items = n
             \<and> files w' = files (snd (read rt self (gen_name func) args kwargs w)))"
proof (cases n)
  case 0
  with t show ?thesis by auto
next
  case (Suc m)
  obtain res w1 where rd: "read rt self (gen_name func) args kwargs w = (res, w1)"
    by (cases "read rt self (gen_name func) args kwargs w")
  have "\<exists>h. res = Inr h"
  proof (cases res)
    case (Inl exc)
    with t st Suc rd show ?thesis
      by (simp add: sync_gen_next_def)
  qed simp
  then obtain h where r: "read rt self (gen_name func) args kwargs w = (Inr h, w1)"
    using rd by auto
  show ?thesis
  proof (cases "h = PNone")
    case True
    show ?thesis
    proof (cases "start func args kwargs")
      case (Inl exc)
      with t st Suc r True show ?thesis
        by (simp add: sync_gen_next_def)
    next
      case (Inr g)
      have t': "take_items n (sync_gen_next rt self func args kwargs) (Forwarding g []) (w1\<lparr>calls := calls w1 + 1\<rparr>)
              = (items, st, w')"
        using t take_items_cong [OF created_step_miss [OF r [unfolded True] Inr], of m]
        by (simp only: Suc)
      from take_items_forwarding_shape [OF t'] st
      obtain g' c' where f: "st = Forwarding g' c'" by auto
      from take_items_forwarding [OF t' [unfolded f]]
      show ?thesis
        using f r by simp
    qed
  next
    case False
    show ?thesis
    proof (cases "py_iter h")
      case (Inl exc)
      with t st Suc r False show ?thesis
        by (simp add: sync_gen_next_def)
    next
      case (Inr xs)
      have "take_items n (sync_gen_next rt self func args kwargs) (Replaying xs) w1 = (items, st, w')"
        using t take_items_cong [OF created_step_hit [OF r False Inr], of m]
        by (simp only: Suc)
      from take_items_replaying [OF this] show ?thesis
        using r by auto
    qed
  qed
qed


text \<open>
  Claim C5. For both generator wrappers (\<open>nxt\<close> is a \<^verbatim>\<open>next\<close> of either) on the miss
  path: a step in which the source does not report its end leaves the files as they
  are, and when the source yields an item the step hands that item to the consumer and
  only appends it to \<^verbatim>\<open>content\<close>; so a write can only happen in the step in which the
  source is exhausted. A consumer that asks for \<open>n\<close> items and then abandons the
  generator before it has finished leaves no entry written: every file was there
  before, and a key without an entry still has none. When it leaves the generator
  forwarding, it has received exactly the accumulated items, and the files are those
  the lookup left. A cancellation is an exception raised by the source, a step that does
  not report the end.
\<close>

theorem generator_writes_after_exhaustion:
  assumes nxt: "nxt \<in> {sync_gen_next rt self func args kwargs, async_gen_next rt self func args kwargs}"
  shows "(fst (resume func g (user w)) \<noteq> Inr None \<longrightarrow>
            files (snd (snd (nxt (Forwarding g content) w))) = files w)
       \<and> (\<forall>item g'. fst (resume func g (user w)) = Inr (Some (item, g')) \<longrightarrow>
            fst (nxt (Forwarding g content) w) = Inr (Some item)
          \<and> fst (snd (nxt (Forwarding g content) w)) = Forwarding g' (content @ [item]))
       \<and> (fst (snd (take_items n nxt Created w0)) \<noteq> Closed \<longrightarrow>
            (\<forall>q. files (snd (snd (take_items n nxt Created w0))) q = None
               \<or> files (snd (snd (take_items n nxt Created w0))) q = files w0 q)
          \<and> (files w0 (cache_file rt self (gen_name func) args kwargs) = None \<longrightarrow>
               files (snd (snd (take_items n nxt Created w0))) = files w0))
       \<and> (\<forall>g1 content1. fst (snd (take_items n nxt Created w0)) = Forwarding g1 content1 \<longrightarrow>
            content1 = fst (take_items n nxt Created w0)
          \<and> length (fst (take_items n nxt Created w0)) = n
          \<and> files (snd (snd (take_items n nxt Created w0))) =
              files (snd (read rt self (gen_name func) args kwargs w0)))"
proof -
  have n: "nxt = sync_gen_next rt self func args kwargs"
    using nxt by (auto simp: async_gen_next_eq)
  obtain items st w' where t: "take_items n (sync_gen_next rt self func args kwargs) Created w0 = (items, st, w')"
    by (cases "take_items n (sync_gen_next rt self func args kwargs) Created w0")
  have step1: "fst (resume func g (user w)) \<noteq> Inr None \<longrightarrow>
            files (snd (snd (nxt (Forwarding g content) w))) = files w"
    unfolding n by (auto simp: forwarding_step split: prod.splits sum.splits option.splits)
  have step2: "\<forall>item g'. fst (resume func g (user w)) = Inr (Some (item, g')) \<longrightarrow>
            fst (nxt (Forwarding g content) w) = Inr (Some item)
          \<and> fst (snd (nxt (Forwarding g content) w)) = Forwarding g' (content @ [item])"
    unfolding n by (auto simp: forwarding_step split: prod.splits sum.splits option.splits)
  have ab: "files w0 (cache_file rt self (gen_name func) args kwargs) = None \<Longrightarrow>
            files (snd (read rt self (gen_name func) args kwargs w0)) = files w0"
    by (simp add: read_absent)
  have rest: "st \<noteq> Closed \<Longrightarrow>
       (files w' = files w0 \<or> files w' = files (snd (read rt self (gen_name func) args kwargs w0)))
       \<and> (\<forall>g' c'. st = Forwarding g' c' \<longrightarrow> c' = items \<and> length items = n
             \<and> files w' = files (snd (read rt self (gen_name func) args kwargs w0)))"
    by (rule take_items_created [OF t])
  have ab3: "st \<noteq> Closed \<longrightarrow>
            (\<forall>q. files w' q = None \<or> files w' q = files w0 q)
          \<and> (files w0 (cache_file rt self (gen_name func) args kwargs) = None \<longrightarrow> files w' = files w0)"
    using rest ab read_files [of rt self "gen_name func" args kwargs w0] by auto
  have ab4: "\<forall>g1 content1. st = Forwarding g1 content1 \<longrightarrow>
            content1 = items \<and> length items = n
          \<and> files w' = files (snd (read rt self (gen_name func) args kwargs w0))"
    using rest by auto
  show ?thesis
    unfolding n t fst_conv snd_conv
    using step1 [unfolded n] step2 [unfolded n] ab3 ab4 by blast
qed


lemma gen_fn_cache_file: "cache_file example_runtime tmp_wrapper (gen_name gen_fn) [3] [] = [''tmp'', ''666e3a33'']"
  by code_simp

lemma gen_fn_two_items:
  "fst (snd (take_items 2 (sync_gen_next example_runtime tmp_wrapper gen_fn [3] []) Created empty_world)) =
     Forwarding (True, [PInt 5]) [PInt 3, PInt 4]"
  "fst (take_items 2 (sync_gen_next example_runtime tmp_wrapper gen_fn [3] []) Created empty_world) = [PInt 3, PInt 4]"
  by code_simp+

lemma gen_fn_first:
  "fst (resume gen_fn (False, [PInt 3, PInt 4, PInt 5]) (user empty_world)) =
     Inr (Some (PInt 3, (True, [PInt 4, PInt 5])))"
  by (simp add: gen_fn_def)

theorem generator_writes_after_exhaustion_witness:
  "sync_gen_next example_runtime tmp_wrapper gen_fn [3] [] \<in>
     {sync_gen_next example_runtime tmp_wrapper gen_fn [3] [], async_gen_next example_runtime tmp_wrapper gen_fn [3] []}
   \<and> fst (resume gen_fn (False, [PInt 3, PInt 4, PInt 5]) (user empty_world)) =
       Inr (Some (PInt 3, (True, [PInt 4, PInt 5])))
   \<and> fst (sync_gen_next example_runtime tmp_wrapper gen_fn [3] []
            (Forwarding (False, [PInt 3, PInt 4, PInt 5]) []) empty_world) = Inr (Some (PInt 3))
   \<and> files (snd (snd (sync_gen_next example_runtime tmp_wrapper gen_fn [3] []
            (Forwarding (False, [PInt 3, PInt 4, PInt 5]) []) empty_world))) = files empty_world
   \<and> fst (snd (take_items 2 (sync_gen_next example_runtime tmp_wrapper gen_fn [3] []) Created empty_world)) =
       Forwarding (True, [PInt 5]) [PInt 3, PInt 4]
   \<and> files empty_world (cache_file example_runtime tmp_wrapper (gen_name gen_fn) [3] []) = None
   \<and> fst (take_items 2 (sync_gen_next example_runtime tmp_wrapper gen_fn [3] []) Created empty_world) =
       [PInt 3, PInt 4]
   \<and> files (snd (snd (take_items 2 (sync_gen_next example_runtime tmp_wrapper gen_fn [3] []) Created empty_world))) =
       files empty_world"
proof -
  let ?nxt = "sync_gen_next example_runtime tmp_wrapper gen_fn [3] []"
  have m: "?nxt \<in> {?nxt, async_gen_next example_runtime tmp_wrapper gen_fn [3] []}"
    by simp
  have a: "files empty_world (cache_file example_runtime tmp_wrapper (gen_name gen_fn) [3] []) = None"
    by (simp add: empty_world_def)
  have nc: "fst (snd (take_items 2 ?nxt Created empty_world)) \<noteq> Closed"
    by (simp add: gen_fn_two_items)
  have nn: "fst (resume gen_fn (False, [PInt 3, PInt 4, PInt 5]) (user empty_world)) \<noteq> Inr None"
    by (simp add: gen_fn_first)
  note t = generator_writes_after_exhaustion [OF m, of "(False, [PInt 3, PInt 4, PInt 5])" empty_world "[]" 2 empty_world]
  have s1: "files (snd (snd (?nxt (Forwarding (False, [PInt 3, PInt 4, PInt 5]) []) empty_world))) = files empty_world"
    using t [THEN conjunct1, rule_format, OF nn] .
  have s2: "fst (?nxt (Forwarding (False, [PInt 3, PInt 4, PInt 5]) []) empty_world) = Inr (Some (PInt 3))"
    using t [THEN conjunct2, THEN conjunct1, rule_format, OF gen_fn_first] by (rule conjunct1)
  have s3: "files (snd (snd (take_items 2 ?nxt Created empty_world))) = files empty_world"
    using t [THEN conjunct2, THEN conjunct2, THEN conjunct1, rule_format, OF nc, THEN conjunct2, rule_format, OF a] .
  show ?thesis
    by (intro conjI m gen_fn_first s1 s2 s3 gen_fn_two_items a)
qed

section \<open>The default serializer round-trips\<close>

lemma of_char_lt_256: "(of_char c :: nat) < 256"
proof -
  have "of_char c mod (256 :: nat) < 256" by simp
  then show ?thesis by (simp only: of_char_mod_256)
qed

lemma b64_value_char: "n < 64 \<Longrightarrow> b64_value (b64_char n) = Some n"
  by (auto simp: b64_value_def b64_char_def Let_def)

lemma b64_value_pad: "b64_value (CHR ''='') = None"
  by (simp add: b64_value_def)

lemma b64_value_newline: "b64_value (CHR 0x0A) = None"
  by (simp add: b64_value_def)

lemma b64_char_not_pad: "n < 64 \<Longrightarrow> b64_char n \<noteq> CHR ''=''"
  using b64_value_char [of n] b64_value_pad by auto

text \<open>One decoding step on a character of the alphabet.\<close>

lemma a2b_step:
  assumes "n < 64"
  shows "a2b_base64 q l p out (b64_char n # rest) =
     (if q = 0 then a2b_base64 1 n 0 out rest
      else if q = 1 then a2b_base64 2 (n mod 16) 0 (out @ [char_of (l * 4 + n div 16)]) rest
      else if q = 2 then a2b_base64 3 (n mod 4) 0 (out @ [char_of (l * 16 + n div 4)]) rest
      else a2b_base64 0 0 0 (out @ [char_of (l * 64 + n)]) rest)"
  using assms by (simp add: a2b_base64.simps b64_value_char b64_char_not_pad)


lemma a2b_pad:
  "a2b_base64 q l p out (CHR ''='' # rest) =
     (if q \<ge> 2 \<and> q + (p + 1) \<ge> 4 then Inr out
      else a2b_base64 q l (if q \<ge> 2 then p + 1 else p) out rest)"
  by (simp add: a2b_base64.simps)

lemma a2b_skip_newline: "a2b_base64 q l p out (CHR 0x0A # rest) = a2b_base64 q l p out rest"
  by (simp add: a2b_base64.simps b64_value_newline)

lemma first_byte:
  fixes a b :: nat
  assumes "b < 256"
  shows "a div 4 * 4 + (a mod 4 * 16 + b div 16) div 16 = a"
proof -
  have "b div 16 < 16" using assms by simp
  then have "(a mod 4 * 16 + b div 16) div 16 = a mod 4" by simp
  then show ?thesis by simp
qed

lemma second_byte:
  fixes a b c :: nat
  assumes "b < 256" "c < 256"
  shows "(a mod 4 * 16 + b div 16) mod 16 * 16 + (b mod 16 * 4 + c div 64) div 4 = b"
proof -
  have "b div 16 < 16" using assms by simp
  then have 1: "(a mod 4 * 16 + b div 16) mod 16 = b div 16" by simp
  have "c div 64 < 4" using assms by simp
  then have 2: "(b mod 16 * 4 + c div 64) div 4 = b mod 16" by simp
  show ?thesis unfolding 1 2 by simp
qed

lemma third_byte:
  fixes b c :: nat
  assumes "c < 256"
  shows "(b mod 16 * 4 + c div 64) mod 4 * 64 + c mod 64 = c"
proof -
  have "c div 64 < 4" using assms by simp
  then have 1: "(b mod 16 * 4 + c div 64) mod 4 = c div 64" by simp
  show ?thesis unfolding 1 by simp
qed


lemma a2b_two_sextets:
  fixes A B :: nat
  assumes B: "B < 256" and A: "A < 256"
  shows "a2b_base64 0 0 0 out (b64_char (A div 4) # b64_char (A mod 4 * 16 + B div 16) # rest) =
         a2b_base64 2 (B div 16) 0 (out @ [char_of A]) rest"
proof -
  have s1: "A div 4 < 64" using A by simp
  have s2: "A mod 4 * 16 + B div 16 < 64" using B by simp
  have m: "(A mod 4 * 16 + B div 16) mod 16 = B div 16" using B by simp
  have "a2b_base64 0 0 0 out (b64_char (A div 4) # b64_char (A mod 4 * 16 + B div 16) # rest) =
        a2b_base64 1 (A div 4) 0 out (b64_char (A mod 4 * 16 + B div 16) # rest)"
    by (subst a2b_step [OF s1]) simp
  also have "\<dots> = a2b_base64 2 ((A mod 4 * 16 + B div 16) mod 16) 0
        (out @ [char_of (A div 4 * 4 + (A mod 4 * 16 + B div 16) div 16)]) rest"
    by (subst a2b_step [OF s2]) simp
  also have "\<dots> = a2b_base64 2 (B div 16) 0 (out @ [char_of A]) rest"
    by (simp only: m first_byte [OF B])
  finally show ?thesis .
qed

lemma a2b_third_sextet:
  fixes B C :: nat
  assumes C: "C < 256" and B: "B < 256"
  shows "a2b_base64 2 (B div 16) 0 out (b64_char (B mod 16 * 4 + C div 64) # rest) =
         a2b_base64 3 (C div 64) 0 (out @ [char_of B]) rest"
proof -
  have s3: "B mod 16 * 4 + C div 64 < 64" using C by simp
  have m: "(B mod 16 * 4 + C div 64) mod 4 = C div 64" using C by simp
  have d: "(B mod 16 * 4 + C div 64) div 4 = B mod 16" using C by simp
  have "a2b_base64 2 (B div 16) 0 out (b64_char (B mod 16 * 4 + C div 64) # rest) =
        a2b_base64 3 ((B mod 16 * 4 + C div 64) mod 4) 0
          (out @ [char_of (B div 16 * 16 + (B mod 16 * 4 + C div 64) div 4)]) rest"
    by (subst a2b_step [OF s3]) simp
  also have "\<dots> = a2b_base64 3 (C div 64) 0 (out @ [char_of B]) rest"
    by (simp only: m d div_mult_mod_eq)
  finally show ?thesis .
qed

lemma a2b_fourth_sextet:
  fixes C :: nat
  shows "a2b_base64 3 (C div 64) 0 out (b64_char (C mod 64) # rest) =
         a2b_base64 0 0 0 (out @ [char_of C]) rest"
proof -
  have s4: "C mod 64 < 64" by simp
  have "a2b_base64 3 (C div 64) 0 out (b64_char (C mod 64) # rest) =
        a2b_base64 0 0 0 (out @ [char_of (C div 64 * 64 + C mod 64)]) rest"
    by (subst a2b_step [OF s4]) simp
  then show ?thesis
    by (simp only: div_mult_mod_eq)
qed

lemma a2b_full_group:
  "a2b_base64 0 0 0 out
     (b64_char (of_char a div 4) #
      b64_char (of_char a mod 4 * 16 + of_char b div 16) #
      b64_char (of_char b mod 16 * 4 + of_char c div 64) #
      b64_char (of_char c mod 64) # rest) =
   a2b_base64 0 0 0 (out @ [a, b, c]) rest"
  by (simp only: a2b_two_sextets [OF of_char_lt_256 of_char_lt_256]
        a2b_third_sextet [OF of_char_lt_256 of_char_lt_256] a2b_fourth_sextet
        char_of_char append_assoc append_Cons append_Nil)

lemma a2b_third_sextet_padded:
  fixes B :: nat
  shows "a2b_base64 2 (B div 16) 0 out (b64_char (B mod 16 * 4) # rest) =
         a2b_base64 3 0 0 (out @ [char_of B]) rest"
proof -
  have s3: "B mod 16 * 4 < 64" by simp
  have "a2b_base64 2 (B div 16) 0 out (b64_char (B mod 16 * 4) # rest) =
        a2b_base64 3 (B mod 16 * 4 mod 4) 0 (out @ [char_of (B div 16 * 16 + B mod 16 * 4 div 4)]) rest"
    by (subst a2b_step [OF s3]) simp
  then show ?thesis
    by simp
qed

lemma a2b_two_sextets_padded:
  fixes A :: nat
  assumes A: "A < 256"
  shows "a2b_base64 0 0 0 out (b64_char (A div 4) # b64_char (A mod 4 * 16) # rest) =
         a2b_base64 2 0 0 (out @ [char_of A]) rest"
proof -
  have s1: "A div 4 < 64" using A by simp
  have s2: "A mod 4 * 16 < 64" by simp
  have "a2b_base64 0 0 0 out (b64_char (A div 4) # b64_char (A mod 4 * 16) # rest) =
        a2b_base64 1 (A div 4) 0 out (b64_char (A mod 4 * 16) # rest)"
    by (subst a2b_step [OF s1]) simp
  also have "\<dots> = a2b_base64 2 (A mod 4 * 16 mod 16) 0
        (out @ [char_of (A div 4 * 4 + A mod 4 * 16 div 16)]) rest"
    by (subst a2b_step [OF s2]) simp
  also have "\<dots> = a2b_base64 2 0 0 (out @ [char_of A]) rest"
    by simp
  finally show ?thesis .
qed

lemma a2b_two_byte_group:
  "a2b_base64 0 0 0 out
     (b64_char (of_char a div 4) #
      b64_char (of_char a mod 4 * 16 + of_char b div 16) #
      b64_char (of_char b mod 16 * 4) #
      CHR ''='' # rest) =
   Inr (out @ [a, b])"
proof -
  have "a2b_base64 0 0 0 out
     (b64_char (of_char a div 4) #
      b64_char (of_char a mod 4 * 16 + of_char b div 16) #
      b64_char (of_char b mod 16 * 4) #
      CHR ''='' # rest) =
     a2b_base64 3 0 0 (out @ [a, b]) (CHR ''='' # rest)"
    by (simp only: a2b_two_sextets [OF of_char_lt_256 of_char_lt_256]
          a2b_third_sextet_padded
          char_of_char append_assoc append_Cons append_Nil)
  also have "\<dots> = Inr (out @ [a, b])"
    by (subst a2b_pad) simp
  finally show ?thesis .
qed

lemma a2b_one_byte_group:
  "a2b_base64 0 0 0 out
     (b64_char (of_char a div 4) #
      b64_char (of_char a mod 4 * 16) #
      CHR ''='' # CHR ''='' # rest) =
   Inr (out @ [a])"
proof -
  have "a2b_base64 0 0 0 out
     (b64_char (of_char a div 4) # b64_char (of_char a mod 4 * 16) # CHR ''='' # CHR ''='' # rest) =
     a2b_base64 2 0 0 (out @ [a]) (CHR ''='' # CHR ''='' # rest)"
    by (simp only: a2b_two_sextets_padded [OF of_char_lt_256] char_of_char)
  also have "\<dots> = a2b_base64 2 0 1 (out @ [a]) (CHR ''='' # rest)"
    by (subst a2b_pad) simp
  also have "\<dots> = Inr (out @ [a])"
    by (subst a2b_pad) simp
  finally show ?thesis .
qed

lemma a2b_groups_then_newline:
  "a2b_base64 0 0 0 out (b2a_groups xs @ [CHR 0x0A]) = Inr (out @ xs)"
proof (induction xs arbitrary: out rule: b2a_groups.induct)
  case (1 a b c rest)
  have "a2b_base64 0 0 0 out (b2a_groups (a # b # c # rest) @ [CHR 0x0A]) =
        a2b_base64 0 0 0 (out @ [a, b, c]) (b2a_groups rest @ [CHR 0x0A])"
    by (simp only: b2a_groups.simps append_Cons append_Nil a2b_full_group)
  also have "\<dots> = Inr ((out @ [a, b, c]) @ rest)"
    by (rule "1.IH")
  finally show ?case by simp
next
  case (2 a b)
  show ?case
    by (simp only: b2a_groups.simps append_Cons append_Nil a2b_two_byte_group)
next
  case (3 a)
  show ?case
    by (simp only: b2a_groups.simps append_Cons append_Nil a2b_one_byte_group)
next
  case 4
  show ?case
    by (simp add: a2b_skip_newline a2b_base64.simps(1))
qed

lemma a2b_whole_groups:
  "length xs mod 3 = 0 \<Longrightarrow>
   a2b_base64 0 0 0 out (b2a_groups xs @ rest) = a2b_base64 0 0 0 (out @ xs) rest"
proof (induction xs arbitrary: out rule: b2a_groups.induct)
  case (1 a b c rest')
  have l: "length rest' mod 3 = 0"
    using "1.prems" by simp
  have "a2b_base64 0 0 0 out (b2a_groups (a # b # c # rest') @ rest) =
        a2b_base64 0 0 0 (out @ [a, b, c]) (b2a_groups rest' @ rest)"
    by (simp only: b2a_groups.simps append_Cons append_Nil a2b_full_group)
  also have "\<dots> = a2b_base64 0 0 0 ((out @ [a, b, c]) @ rest') rest"
    by (rule "1.IH" [OF l])
  finally show ?case by simp
next
  case (2 a b)
  then show ?case by simp
next
  case (3 a)
  then show ?case by simp
next
  case 4
  show ?case by simp
qed

lemma a2b_whole_line:
  "length chunk mod 3 = 0 \<Longrightarrow>
   a2b_base64 0 0 0 out (b2a_base64 chunk @ rest) = a2b_base64 0 0 0 (out @ chunk) rest"
  by (simp add: b2a_base64_def a2b_whole_groups a2b_skip_newline)

lemma a2b_last_line: "a2b_base64 0 0 0 out (b2a_base64 chunk) = Inr (out @ chunk)"
  by (simp add: b2a_base64_def a2b_groups_then_newline)

lemma encodebytes_Nil: "encodebytes [] = []"
  by (subst encodebytes.simps) simp

lemma encodebytes_unfold:
  "s \<noteq> [] \<Longrightarrow> encodebytes s = b2a_base64 (take 57 s) @ encodebytes (drop 57 s)"
  by (subst encodebytes.simps) simp

lemma a2b_encodebytes: "a2b_base64 0 0 0 out (encodebytes s) = Inr (out @ s)"
proof (induction s arbitrary: out rule: encodebytes.induct)
  case (1 s)
  show ?case
  proof (cases "s = []")
    case True
    then show ?thesis by (simp add: encodebytes_Nil a2b_base64.simps(1))
  next
    case False
    note ne = this
    show ?thesis
    proof (cases "drop 57 s = []")
      case True
      then have "take 57 s = s" by simp
      with True show ?thesis
        by (simp add: encodebytes_unfold [OF ne] encodebytes_Nil a2b_last_line)
    next
      case False
      then have "length (take 57 s) = 57" by simp
      then have m: "length (take 57 s) mod 3 = 0" by simp
      have "a2b_base64 0 0 0 out (encodebytes s) =
            a2b_base64 0 0 0 (out @ take 57 s) (encodebytes (drop 57 s))"
        by (simp only: encodebytes_unfold [OF ne] a2b_whole_line [OF m])
      also have "\<dots> = Inr ((out @ take 57 s) @ drop 57 s)"
        by (rule "1.IH" [OF ne])
      finally show ?thesis by simp
    qed
  qed
qed

lemma decodebytes_encodebytes: "decodebytes (encodebytes s) = Inr s"
  by (simp add: decodebytes_def a2b_encodebytes)

text \<open>
  Claim C6. For the default serializer, decoding what was encoded gives the value
  back, for every value that pickle supports, that is, that \<^verbatim>\<open>pickle.dumps\<close> encodes to
  bytes which \<^verbatim>\<open>pickle.loads\<close> decodes to it (any value, a list of primitives included).
  The Base64 layer round-trips every byte string exactly, so the composition does.
\<close>

theorem pickle_serializer_round_trip:
  assumes "pickle_dumps rt x = Inr raw"
    and "pickle_loads rt raw = Inr x"
  shows "dumps (PickleSerializer rt) x = Inr (encodebytes raw)
       \<and> loads (PickleSerializer rt) (encodebytes raw) = Inr x
       \<and> decodebytes (encodebytes any_bytes) = Inr any_bytes"
  using assms by (simp add: PickleSerializer_def decodebytes_encodebytes)

lemma example_pickle_of_four:
  "pickle_dumps example_runtime (PInt 4) = Inr [CHR 0x80, CHR 0x04, CHR ''K'', CHR 0x04, CHR ''.'']"
  "pickle_loads example_runtime [CHR 0x80, CHR 0x04, CHR ''K'', CHR 0x04, CHR ''.''] = Inr (PInt 4)"
  "encodebytes [CHR 0x80, CHR 0x04, CHR ''K'', CHR 0x04, CHR ''.''] = ''gARLBC4='' @ [CHR 0x0A]"
  by code_simp+

theorem pickle_serializer_round_trip_witness:
  "pickle_dumps example_runtime (PInt 4) = Inr [CHR 0x80, CHR 0x04, CHR ''K'', CHR 0x04, CHR ''.'']
   \<and> pickle_loads example_runtime [CHR 0x80, CHR 0x04, CHR ''K'', CHR 0x04, CHR ''.''] = Inr (PInt 4)
   \<and> dumps (PickleSerializer example_runtime) (PInt 4) = Inr (''gARLBC4='' @ [CHR 0x0A])
   \<and> loads (PickleSerializer example_runtime) (''gARLBC4='' @ [CHR 0x0A]) = Inr (PInt 4)
   \<and> decodebytes (encodebytes ''any bytes'') = Inr ''any bytes''"
proof -
  note t = pickle_serializer_round_trip [OF example_pickle_of_four(1) example_pickle_of_four(2), of "''any bytes''"]
  have d: "dumps (PickleSerializer example_runtime) (PInt 4) = Inr (''gARLBC4='' @ [CHR 0x0A])"
    using t [THEN conjunct1] by (simp only: example_pickle_of_four(3))
  have l: "loads (PickleSerializer example_runtime) (''gARLBC4='' @ [CHR 0x0A]) = Inr (PInt 4)"
    using t [THEN conjunct2, THEN conjunct1] by (simp only: example_pickle_of_four(3))
  show ?thesis
    by (intro conjI example_pickle_of_four(1) example_pickle_of_four(2) d l
          t [THEN conjunct2, THEN conjunct2])
qed

end
